theory Spec2Isabelle
  imports Complex_Main
begin

section \<open>JavaScript values\<close>

text \<open>
  The parser works on whatever \<^verbatim>\<open>JSON.parse\<close> returns, so the raw data is a JavaScript
  value: a JSON value, or \<^verbatim>\<open>undefined\<close> for a property that is absent. Numbers are the
  integer-valued ones. An object is the list of its own properties in enumeration order.
\<close>

datatype jsval =
    Undefined
  | Null
  | JBool bool
  | JNum int
  | JStr string
  | JArr "jsval list"
  | JObj "(string \<times> jsval) list"

datatype error = TypeError

text \<open>\<^verbatim>\<open>v == null\<close>: the values the \<^verbatim>\<open>??\<close> operator replaces.\<close>

definition nullish :: "jsval \<Rightarrow> bool" where
  "nullish v = (v = Undefined \<or> v = Null)"

text \<open>\<^verbatim>\<open>a ?? b\<close>\<close>

definition nc :: "jsval \<Rightarrow> jsval \<Rightarrow> jsval" where
  "nc a b = (if nullish a then b else a)"

text \<open>ToBoolean.\<close>

fun truthy :: "jsval \<Rightarrow> bool" where
  "truthy Undefined = False"
| "truthy Null = False"
| "truthy (JBool b) = b"
| "truthy (JNum n) = (n \<noteq> 0)"
| "truthy (JStr s) = (s \<noteq> [])"
| "truthy (JArr xs) = True"
| "truthy (JObj kvs) = True"

text \<open>
  \<^verbatim>\<open>v.k\<close> for a value that is not null or undefined (on those the read throws, which
  each caller below writes out). The keys the parser reads are never \<^verbatim>\<open>length\<close>, an index
  or a name of a built-in prototype, so only an object can hold them.
\<close>

fun getProp :: "jsval \<Rightarrow> string \<Rightarrow> jsval" where
  "getProp (JObj kvs) k = (case map_of kvs k of Some v \<Rightarrow> v | None \<Rightarrow> Undefined)"
| "getProp v k = Undefined"

text \<open>\<^verbatim>\<open>k in v\<close> for a value with \<^verbatim>\<open>typeof v === 'object'\<close> that is not null.\<close>

fun has :: "string \<Rightarrow> jsval \<Rightarrow> bool" where
  "has k (JObj kvs) = (map_of kvs k \<noteq> None)"
| "has k v = False"

text \<open>\<^verbatim>\<open>typeof v === 'object'\<close>\<close>

fun typeofObject :: "jsval \<Rightarrow> bool" where
  "typeofObject Null = True"
| "typeofObject (JArr xs) = True"
| "typeofObject (JObj kvs) = True"
| "typeofObject v = False"

fun isArray :: "jsval \<Rightarrow> bool" where
  "isArray (JArr xs) = True"
| "isArray v = False"

section \<open>Strings\<close>

text \<open>
  A string is the list of its UTF-16 code units; the model covers the units below 256
  (Latin-1), where a \<^typ>\<open>char\<close> is one unit. Character classes are those of ECMAScript
  regular expressions without the \<^verbatim>\<open>u\<close> and \<^verbatim>\<open>i\<close> flags.
\<close>

definition code :: "char \<Rightarrow> nat" where
  "code c = of_char c"

text \<open>\<^verbatim>\<open>\s\<close>, which is also what \<^verbatim>\<open>trim\<close> strips: TAB, LF, VT, FF, CR, SP, NBSP.\<close>

definition isSpace :: "char \<Rightarrow> bool" where
  "isSpace c = ((9 \<le> code c \<and> code c \<le> 13) \<or> code c = 32 \<or> code c = 160)"

text \<open>\<^verbatim>\<open>\d\<close>\<close>

definition isDigit :: "char \<Rightarrow> bool" where
  "isDigit c = (48 \<le> code c \<and> code c \<le> 57)"

text \<open>\<^verbatim>\<open>[\w~]\<close>: letters, digits, underscore, tilde.\<close>

definition isWordTilde :: "char \<Rightarrow> bool" where
  "isWordTilde c =
     ((48 \<le> code c \<and> code c \<le> 57) \<or> (65 \<le> code c \<and> code c \<le> 90) \<or>
      (97 \<le> code c \<and> code c \<le> 122) \<or> code c = 95 \<or> code c = 126)"

text \<open>
  \<^verbatim>\<open>toLowerCase\<close>: in Latin-1 the upper-case letters are A-Z and U+00C0-U+00DE without
  the multiplication sign U+00D7, each 32 below its lower-case letter.
\<close>

definition lowerChar :: "char \<Rightarrow> char" where
  "lowerChar c =
     (if (65 \<le> code c \<and> code c \<le> 90) \<or> (192 \<le> code c \<and> code c \<le> 222 \<and> code c \<noteq> 215)
      then char_of (code c + 32) else c)"

definition toLowerCase :: "string \<Rightarrow> string" where
  "toLowerCase s = map lowerChar s"

definition trim :: "string \<Rightarrow> string" where
  "trim s = rev (dropWhile isSpace (rev (dropWhile isSpace s)))"

text \<open>\<^verbatim>\<open>s.startsWith(p)\<close> and \<^verbatim>\<open>s.endsWith(p)\<close>\<close>

definition startsWith :: "string \<Rightarrow> string \<Rightarrow> bool" where
  "startsWith s p = (take (length p) s = p)"

definition endsWith :: "string \<Rightarrow> string \<Rightarrow> bool" where
  "endsWith s p = (length p \<le> length s \<and> drop (length s - length p) s = p)"

text \<open>Decimal digits of a natural number, and Number-to-String on integers.\<close>

fun digitsOf :: "nat \<Rightarrow> string" where
  "digitsOf n = (if n < 10 then [char_of (48 + n)] else digitsOf (n div 10) @ [char_of (48 + n mod 10)])"

definition numToString :: "int \<Rightarrow> string" where
  "numToString n = (if n < 0 then CHR ''-'' # digitsOf (nat (- n)) else digitsOf (nat n))"

text \<open>\<^verbatim>\<open>xs.join(sep)\<close> on strings.\<close>

fun join :: "string \<Rightarrow> string list \<Rightarrow> string" where
  "join sep [] = []"
| "join sep [x] = x"
| "join sep (x # y # ys) = x @ sep @ join sep (y # ys)"

text \<open>
  \<^verbatim>\<open>String(v)\<close>. An array joins its elements with commas, null and undefined elements
  as empty strings; a plain object is \<^verbatim>\<open>[object Object]\<close> (objects with a property
  named \<^verbatim>\<open>toString\<close> or \<^verbatim>\<open>valueOf\<close> are outside the model). Integers are printed in
  decimal, as JavaScript prints the integers that a Number holds exactly, those of
  magnitude up to 2^53.
\<close>

fun ToString :: "jsval \<Rightarrow> string" where
  "ToString Undefined = ''undefined''"
| "ToString Null = ''null''"
| "ToString (JBool b) = (if b then ''true'' else ''false'')"
| "ToString (JNum n) = numToString n"
| "ToString (JStr s) = s"
| "ToString (JArr xs) = join '','' (map (\<lambda>x. if x = Undefined \<or> x = Null then [] else ToString x) xs)"
| "ToString (JObj kvs) = ''[object Object]''"

section \<open>Dates\<close>

text \<open>
  A Date object holds a time value: milliseconds since the epoch, at most 8.64e15 in
  magnitude, or NaN (an invalid date). What the host's \<^verbatim>\<open>Date.parse\<close> makes of a string
  is implementation-defined outside the ISO format, and the local time zone and the
  collation of \<^verbatim>\<open>localeCompare\<close> are the host's; they are parameters of the model.
\<close>

datatype date = InvalidDate | Date int

record host =
  dateParse :: "string \<Rightarrow> int option"
  localTZA :: "int \<Rightarrow> int"
  localeCompare :: "string \<Rightarrow> string \<Rightarrow> int"

definition TimeClip :: "int \<Rightarrow> date" where
  "TimeClip t = (if \<bar>t\<bar> > 8640000000000000 then InvalidDate else Date t)"

text \<open>
  \<^verbatim>\<open>new Date(v)\<close> for one argument: a string is parsed, anything else is converted to a
  number; arrays and objects are first converted to their string.
\<close>

fun newDate :: "host \<Rightarrow> jsval \<Rightarrow> date" where
  "newDate h Undefined = InvalidDate"
| "newDate h Null = Date 0"
| "newDate h (JBool b) = Date (if b then 1 else 0)"
| "newDate h (JNum n) = TimeClip n"
| "newDate h (JStr s) = (case dateParse h s of None \<Rightarrow> InvalidDate | Some t \<Rightarrow> TimeClip t)"
| "newDate h (JArr xs) =
     (case dateParse h (ToString (JArr xs)) of None \<Rightarrow> InvalidDate | Some t \<Rightarrow> TimeClip t)"
| "newDate h (JObj kvs) =
     (case dateParse h (ToString (JObj kvs)) of None \<Rightarrow> InvalidDate | Some t \<Rightarrow> TimeClip t)"

text \<open>Shift all timestamps by this many hours (export times were 5h late).\<close>

definition TZ_OFFSET_HOURS :: int where
  "TZ_OFFSET_HOURS = - 5"

definition TZ_OFFSET_MS :: int where
  "TZ_OFFSET_MS = TZ_OFFSET_HOURS * 60 * 60 * 1000"

section \<open>Record Normalizer\<close>

text \<open>The identity fields that messages, channel metadata and channel rows share.\<close>

record chan =
  channelId :: jsval
  guildId :: jsval
  channelName :: jsval
  guildName :: jsval
  avatarUrl :: jsval

record message = chan +
  msgId :: jsval
  timestamp :: "date option"
  contents :: string
  attachments :: "jsval list"

text \<open>The raw timestamp of a message object: \<^verbatim>\<open>msg.Timestamp ?? msg.timestamp ?? msg.date\<close>.\<close>

definition rawTimestamp :: "jsval \<Rightarrow> jsval" where
  "rawTimestamp msg = nc (nc (getProp msg ''Timestamp'') (getProp msg ''timestamp'')) (getProp msg ''date'')"

text \<open>
  \<^verbatim>\<open>normalizeMessage(msg)\<close>. Reading a property of null or undefined throws. The returned
  object has no \<^verbatim>\<open>avatarUrl\<close> yet.
\<close>

definition normalizeMessage :: "host \<Rightarrow> jsval \<Rightarrow> error + message" where
  "normalizeMessage h msg =
     (if nullish msg then Inl TypeError
      else
        let id = nc (getProp msg ''ID'') (getProp msg ''id'');
            ts = rawTimestamp msg;
            contents = nc (nc (nc (getProp msg ''Contents'') (getProp msg ''content''))
                             (getProp msg ''contents'')) (JStr '''');
            attachments = nc (nc (getProp msg ''Attachments'') (getProp msg ''attachments'')) (JArr []);
            arr = (case attachments of JArr xs \<Rightarrow> xs
                   | _ \<Rightarrow> if truthy attachments then [attachments] else []);
            rawDate = (if truthy ts then Some (newDate h ts) else None);
            timestamp = (case rawDate of
                           Some (Date t) \<Rightarrow> Some (TimeClip (t + TZ_OFFSET_MS))
                         | _ \<Rightarrow> None)
        in Inr \<lparr> channelId = Null, guildId = Null, channelName = Null, guildName = Null,
                 avatarUrl = Undefined,
                 msgId = id, timestamp = timestamp, contents = ToString (nc contents (JStr '''')),
                 attachments = arr \<rparr>)"

text \<open>
  \<^verbatim>\<open>looksLikeId(str)\<close>: after trimming, \<^verbatim>\<open>/^[c~]?\d{15,}$/\<close> or more than 16 characters
  matching \<^verbatim>\<open>/^\d+$/\<close>.
\<close>

definition reAllDigits :: "string \<Rightarrow> bool" where
  "reAllDigits s = (s \<noteq> [] \<and> list_all isDigit s)"

definition reIdShape :: "string \<Rightarrow> bool" where
  "reIdShape s =
     (let ds = (case s of [] \<Rightarrow> [] | c # cs \<Rightarrow> if c = CHR ''c'' \<or> c = CHR ''~'' then cs else s)
      in 15 \<le> length ds \<and> list_all isDigit ds)"

definition looksLikeId :: "jsval \<Rightarrow> bool" where
  "looksLikeId str =
     (case str of
        JStr x \<Rightarrow> (let s = trim x in reIdShape s \<or> (length s > 16 \<and> reAllDigits s))
      | _ \<Rightarrow> False)"


section \<open>Local time and date keys\<close>

text \<open>
  The local getters of a valid Date, after ECMAScript: local time is the time value plus
  the host's offset at that instant; the calendar is the proleptic Gregorian one.
\<close>

definition localTime :: "host \<Rightarrow> int \<Rightarrow> int" where
  "localTime h t = t + localTZA h t"

definition getHours :: "host \<Rightarrow> int \<Rightarrow> nat" where
  "getHours h t = nat ((localTime h t div 3600000) mod 24)"

definition getDay :: "host \<Rightarrow> int \<Rightarrow> nat" where
  "getDay h t = nat ((localTime h t div 86400000 + 4) mod 7)"

text \<open>Year, month (1-12) and day of the month of a day number counted from the epoch.\<close>

definition civilFromDays :: "int \<Rightarrow> int \<times> int \<times> int" where
  "civilFromDays z0 =
     (let z = z0 + 719468;
          era = z div 146097;
          doe = z - era * 146097;
          yoe = (doe - doe div 1460 + doe div 36524 - doe div 146096) div 365;
          doy = doe - (365 * yoe + yoe div 4 - yoe div 100);
          mp = (5 * doy + 2) div 153;
          d = doy - (153 * mp + 2) div 5 + 1;
          m = (if mp < 10 then mp + 3 else mp - 9);
          y = yoe + era * 400 + (if m \<le> 2 then 1 else 0)
      in (y, m, d))"

definition getFullYear :: "host \<Rightarrow> int \<Rightarrow> int" where
  "getFullYear h t = fst (civilFromDays (localTime h t div 86400000))"

text \<open>\<^verbatim>\<open>getMonth\<close> counts from 0.\<close>

definition getMonth :: "host \<Rightarrow> int \<Rightarrow> int" where
  "getMonth h t = fst (snd (civilFromDays (localTime h t div 86400000))) - 1"

definition getDate :: "host \<Rightarrow> int \<Rightarrow> int" where
  "getDate h t = snd (snd (civilFromDays (localTime h t div 86400000)))"

text \<open>\<^verbatim>\<open>s.padStart(2, '0')\<close>\<close>

definition padStart2 :: "string \<Rightarrow> string" where
  "padStart2 s = replicate (2 - length s) (CHR ''0'') @ s"

text \<open>
  \<^verbatim>\<open>getLocalDateKey(ts)\<close> on a Date object: null for an invalid date, else
  \<^verbatim>\<open>YYYY-MM-DD\<close> in local time.
\<close>

fun getLocalDateKey :: "host \<Rightarrow> date \<Rightarrow> string option" where
  "getLocalDateKey h InvalidDate = None"
| "getLocalDateKey h (Date t) =
     (let y = getFullYear h t;
          m = padStart2 (numToString (getMonth h t + 1));
          day = padStart2 (numToString (getDate h t))
      in Some (numToString y @ ''-'' @ m @ ''-'' @ day))"

section \<open>Tokens\<close>

text \<open>
  \<^verbatim>\<open>s.replace(/[\s\u200b-\u200d\ufeff]+/g, ' ')\<close>: every maximal run of the class
  becomes one space. Below 256 the class is \<^verbatim>\<open>\s\<close>. The flag says that the previous
  character was in the class.
\<close>

fun collapseSpaces :: "bool \<Rightarrow> string \<Rightarrow> string" where
  "collapseSpaces b [] = []"
| "collapseSpaces b (c # cs) =
     (if isSpace c then (if b then collapseSpaces True cs else CHR '' '' # collapseSpaces True cs)
      else c # collapseSpaces False cs)"

text \<open>
  \<^verbatim>\<open>s.split(/\s+/)\<close>: the pieces between the maximal runs of white space, empty pieces at
  the ends included. The first argument is the piece being read, reversed; the flag
  says that the previous character was white space.
\<close>

fun splitSpaces :: "string \<Rightarrow> bool \<Rightarrow> string \<Rightarrow> string list" where
  "splitSpaces cur b [] = [rev cur]"
| "splitSpaces cur b (c # cs) =
     (if isSpace c then (if b then splitSpaces cur True cs else rev cur # splitSpaces [] True cs)
      else splitSpaces (c # cur) False cs)"

definition tokenize :: "string \<Rightarrow> string list" where
  "tokenize text =
     filter (\<lambda>w. length w > 1) (splitSpaces [] False (collapseSpaces False (toLowerCase text)))"

definition STOPWORDS :: "string list" where
  "STOPWORDS =
     [''the'', ''a'', ''an'', ''and'', ''or'', ''but'', ''in'', ''on'', ''at'', ''to'', ''for'',
      ''of'', ''with'', ''by'', ''is'', ''it'', ''i'', ''you'', ''we'', ''they'', ''this'',
      ''that'', ''be'', ''are'', ''was'', ''were'', ''been'', ''have'', ''has'', ''had'', ''do'',
      ''does'', ''did'', ''will'', ''would'', ''could'', ''should'', ''can'', ''if'', ''as'',
      ''so'', ''my'', ''me'', ''your'', ''he'', ''she'', ''his'', ''her'', ''its'', ''just'',
      ''not'', ''no'', ''yes'', ''oh'', ''um'', ''uh'', ''im'', ''dont'', ''cant'', ''wont'',
      ''thats'', ''what'', ''when'', ''where'', ''who'', ''how'', ''why'', ''all'', ''each'',
      ''every'', ''some'', ''any'', ''from'', ''up'', ''out'', ''about'', ''into'', ''over'',
      ''after'', ''before'', ''between'', ''through'', ''during'', ''above'', ''below'',
      ''more'', ''most'', ''other'', ''than'', ''then'', ''them'', ''these'', ''those'',
      ''here'', ''there'']"

text \<open>
  \<^verbatim>\<open>s.match(/:[\w~]+:/g)\<close>, as the scan the regular expression performs. The state is
  None outside a candidate and, after a colon, the characters of the class read since
  (reversed). A second colon closes a non-empty candidate, which is a match, and the
  scan goes on after it; a colon after an empty candidate opens a new one; any other
  character drops the candidate (no match can begin inside it, as it holds no colon).
\<close>

fun emojiScan :: "string option \<Rightarrow> string \<Rightarrow> string list" where
  "emojiScan st [] = []"
| "emojiScan None (c # cs) =
     (if c = CHR '':'' then emojiScan (Some []) cs else emojiScan None cs)"
| "emojiScan (Some acc) (c # cs) =
     (if isWordTilde c then emojiScan (Some (c # acc)) cs
      else if c = CHR '':'' then
        (if acc \<noteq> [] then (CHR '':'' # rev acc @ '':'') # emojiScan None cs
         else emojiScan (Some []) cs)
      else emojiScan None cs)"

definition matchEmojis :: "string \<Rightarrow> string list" where
  "matchEmojis s = emojiScan None s"

text \<open>\<^verbatim>\<open>/^:[\w~]+:$/.test(w)\<close>\<close>

definition isEmojiKey :: "string \<Rightarrow> bool" where
  "isEmojiKey w =
     (case w of
        [] \<Rightarrow> False
      | c # cs \<Rightarrow> c = CHR '':'' \<and> cs \<noteq> [] \<and> last cs = CHR '':'' \<and> butlast cs \<noteq> [] \<and>
                 list_all isWordTilde (butlast cs))"


section \<open>Aggregation Engine\<close>

text \<open>
  A JavaScript Map keeps its entries in insertion order; \<^verbatim>\<open>set\<close> on a key that is
  present replaces the value in place. Keys are compared by value (JavaScript compares
  array and object keys by reference; the model takes equal ones for the same key).
\<close>

fun mapSet :: "'k \<Rightarrow> 'v \<Rightarrow> ('k \<times> 'v) list \<Rightarrow> ('k \<times> 'v) list" where
  "mapSet k v [] = [(k, v)]"
| "mapSet k v (e # es) = (if fst e = k then (k, v) # es else e # mapSet k v es)"

text \<open>\<^verbatim>\<open>m.set(k, (m.get(k) || 0) + 1)\<close>\<close>

definition bump :: "'k \<Rightarrow> ('k \<times> nat) list \<Rightarrow> ('k \<times> nat) list" where
  "bump k m = mapSet k ((case map_of m k of None \<Rightarrow> 0 | Some c \<Rightarrow> c) + 1) m"

text \<open>
  \<^verbatim>\<open>xs.sort(cmp)\<close> is stable; \<open>le a b\<close> stands for \<^verbatim>\<open>cmp(a, b) <= 0\<close>.
\<close>

fun insertBy :: "('a \<Rightarrow> 'a \<Rightarrow> bool) \<Rightarrow> 'a \<Rightarrow> 'a list \<Rightarrow> 'a list" where
  "insertBy le x [] = [x]"
| "insertBy le x (y # ys) = (if le x y then x # y # ys else y # insertBy le x ys)"

definition sortBy :: "('a \<Rightarrow> 'a \<Rightarrow> bool) \<Rightarrow> 'a list \<Rightarrow> 'a list" where
  "sortBy le xs = foldr (insertBy le) xs []"

record channelRow = chan +
  count :: nat
  rowMessages :: "message list"
  rowTopWords :: "(string \<times> nat) list"
  rowFirstMessageAt :: "date option"
  rowLastMessageAt :: "date option"

record guildRow =
  rowGuildId :: jsval
  rowGuildName :: jsval
  rowCount :: nat

record guild =
  gid :: jsval
  gname :: jsval

record channelMeta = chan +
  userIds :: jsval
  recipients :: jsval

record corpus =
  messages :: "message list"
  channels :: "(channelMeta \<times> string) list"
  guilds :: "guild list"
  account :: jsval
  activity :: jsval

text \<open>
  The intermediate result of a parse. \<^verbatim>\<open>channelMetaByPath\<close> and \<^verbatim>\<open>channelIdToName\<close> are
  plain objects used as dictionaries (keys that name a property of \<^verbatim>\<open>Object.prototype\<close>
  are outside the model). \<open>guilds\<close> holds the values of the Map of guilds, each keyed by
  its own \<open>gid\<close>.
\<close>

record parseResult = corpus +
  channelMetaByPath :: "string \<rightharpoonup> channelMeta"
  channelIdToName :: "string \<rightharpoonup> jsval"

record tables =
  byChannel :: "channelRow list"
  byGuild :: "guildRow list"
  byDay :: "(string \<times> nat) list"
  byHour :: "(nat \<times> nat) list"
  byDayOfWeek :: "(nat \<times> nat) list"
  totalWords :: nat
  attachmentCount :: nat

record acc = tables +
  wordCounts :: "(string \<times> nat) list"
  firstTs :: "int option"
  lastTs :: "int option"

record stats = tables +
  totalMessages :: nat
  avgWordsPerMessage :: int
  firstMessageAt :: "date option"
  lastMessageAt :: "date option"
  topWords :: "(string \<times> nat) list"
  topEmojis :: "(string \<times> nat) list"

record summary = corpus +
  stats :: stats

text \<open>\<^verbatim>\<open>obj[k]\<close> on a dictionary object.\<close>

definition lookupName :: "(string \<rightharpoonup> jsval) \<Rightarrow> string \<Rightarrow> jsval" where
  "lookupName names k = (case names k of None \<Rightarrow> Undefined | Some v \<Rightarrow> v)"

text \<open>\<^verbatim>\<open>s.replace(/^\D+/, '')\<close>\<close>

definition stripNonDigitPrefix :: "string \<Rightarrow> string" where
  "stripNonDigitPrefix s = dropWhile (\<lambda>c. \<not> isDigit c) s"

text \<open>
  \<^verbatim>\<open>names?.[key] ?? (key && names?.[key.replace(/^\D+/, '')])\<close>. Only a string has a
  \<^verbatim>\<open>replace\<close> method: for any other truthy key the call throws.
\<close>

definition idFromIndex :: "(string \<rightharpoonup> jsval) \<Rightarrow> jsval \<Rightarrow> error + jsval" where
  "idFromIndex names key =
     (if \<not> nullish (lookupName names (ToString key)) then Inr (lookupName names (ToString key))
      else if \<not> truthy key then Inr key
      else (case key of
              JStr s \<Rightarrow> Inr (lookupName names (stripNonDigitPrefix s))
            | _ \<Rightarrow> Inl TypeError))"

text \<open>The name a row gets when it is created for message \<open>m\<close>.\<close>

definition displayName :: "jsval \<Rightarrow> message \<Rightarrow> jsval" where
  "displayName idx m =
     (let d = nc idx (channelName m)
      in if \<not> truthy (guildId m) \<and> truthy d \<and> looksLikeId d then Null else d)"

definition newChannelRow :: "jsval \<Rightarrow> jsval \<Rightarrow> message \<Rightarrow> channelRow" where
  "newChannelRow key d m =
     \<lparr> channelId = key, guildId = guildId m, channelName = d, guildName = guildName m,
       avatarUrl = nc (avatarUrl m) Null, count = 0, rowMessages = [],
       rowTopWords = [], rowFirstMessageAt = None, rowLastMessageAt = None \<rparr>"

text \<open>\<^verbatim>\<open>ch.count += 1; ch.messages.push(m); if (m.avatarUrl && !ch.avatarUrl) ...\<close>\<close>

definition addToRow :: "message \<Rightarrow> channelRow \<Rightarrow> channelRow" where
  "addToRow m ch =
     ch\<lparr> count := count ch + 1, rowMessages := rowMessages ch @ [m],
         avatarUrl := (if truthy (avatarUrl m) \<and> \<not> truthy (avatarUrl ch) then avatarUrl m
                       else avatarUrl ch) \<rparr>"

text \<open>The rows of \<^verbatim>\<open>byChannel\<close> are its Map's values; each is keyed by its \<open>channelId\<close>.\<close>

fun upsertChannel :: "jsval \<Rightarrow> jsval \<Rightarrow> message \<Rightarrow> channelRow list \<Rightarrow> channelRow list" where
  "upsertChannel key d m [] = [addToRow m (newChannelRow key d m)]"
| "upsertChannel key d m (ch # chs) =
     (if channelId ch = key then addToRow m ch # chs else ch # upsertChannel key d m chs)"

fun upsertGuild :: "message \<Rightarrow> guildRow list \<Rightarrow> guildRow list" where
  "upsertGuild m [] =
     [\<lparr> rowGuildId = guildId m,
        rowGuildName = (if truthy (guildName m) then guildName m else guildId m),
        rowCount = 1 \<rparr>]"
| "upsertGuild m (g # gs) =
     (if rowGuildId g = guildId m then g\<lparr> rowCount := rowCount g + 1 \<rparr> # gs
      else g # upsertGuild m gs)"

text \<open>The two passes over one message's contents that write to \<^verbatim>\<open>wordCounts\<close>.\<close>

definition countWords :: "string list \<Rightarrow> (string \<times> nat) list \<Rightarrow> (string \<times> nat) list" where
  "countWords words wc = foldl (\<lambda>wc w. if w \<in> set STOPWORDS then wc else bump w wc) wc words"

definition countEmojis :: "string \<Rightarrow> (string \<times> nat) list \<Rightarrow> (string \<times> nat) list" where
  "countEmojis text wc = foldl (\<lambda>wc e. bump (toLowerCase e) wc) wc (matchEmojis text)"

text \<open>
  The body of the loop over the messages that passed the filter; \<open>t\<close> is the time value
  of the message's timestamp, which the filter found valid.
\<close>

definition step :: "host \<Rightarrow> (string \<rightharpoonup> jsval) \<Rightarrow> acc \<Rightarrow> int \<times> message \<Rightarrow> error + acc" where
  "step h names a tm =
     (let t = fst tm; m = snd tm;
          key = nc (channelId m) (JStr ''dm'')
      in case idFromIndex names key of
           Inl e \<Rightarrow> Inl e
         | Inr idx \<Rightarrow>
             let words = tokenize (contents m);
                 dayKey = getLocalDateKey h (Date t)
             in Inr (a\<lparr>
                  firstTs := (case firstTs a of None \<Rightarrow> Some t
                              | Some f \<Rightarrow> if t < f then Some t else Some f),
                  lastTs := (case lastTs a of None \<Rightarrow> Some t
                             | Some l \<Rightarrow> if t > l then Some t else Some l),
                  byChannel := upsertChannel key (displayName idx m) m (byChannel a),
                  byGuild := (if truthy (guildId m) then upsertGuild m (byGuild a) else byGuild a),
                  byDay := (case dayKey of None \<Rightarrow> byDay a
                            | Some k \<Rightarrow> if k = [] then byDay a else bump k (byDay a)),
                  byHour := bump (getHours h t) (byHour a),
                  byDayOfWeek := bump (getDay h t) (byDayOfWeek a),
                  totalWords := totalWords a + length words,
                  wordCounts := countEmojis (contents m) (countWords words (wordCounts a)),
                  attachmentCount := attachmentCount a + length (attachments m) \<rparr>))"

fun summaryLoop :: "host \<Rightarrow> (string \<rightharpoonup> jsval) \<Rightarrow> acc \<Rightarrow> (int \<times> message) list \<Rightarrow> error + acc" where
  "summaryLoop h names a [] = Inr a"
| "summaryLoop h names a (tm # tms) =
     (case step h names a tm of Inl e \<Rightarrow> Inl e | Inr a' \<Rightarrow> summaryLoop h names a' tms)"

definition initAcc :: acc where
  "initAcc =
     \<lparr> byChannel = [], byGuild = [], byDay = [],
       byHour = map (\<lambda>i. (i, 0)) [0..<24], byDayOfWeek = map (\<lambda>i. (i, 0)) [0..<7],
       totalWords = 0, attachmentCount = 0, wordCounts = [], firstTs = None, lastTs = None \<rparr>"

text \<open>\<^verbatim>\<open>m.timestamp && !isNaN(m.timestamp.getTime())\<close>, with the time value when it holds.\<close>

definition timeValue :: "message \<Rightarrow> int option" where
  "timeValue m = (case timestamp m of Some (Date t) \<Rightarrow> Some t | _ \<Rightarrow> None)"

definition hasValidTimestamp :: "message \<Rightarrow> bool" where
  "hasValidTimestamp m = (timeValue m \<noteq> None)"

definition byCountDesc :: "('a \<Rightarrow> nat) \<Rightarrow> 'a \<Rightarrow> 'a \<Rightarrow> bool" where
  "byCountDesc f a b = (f b \<le> f a)"

text \<open>The pass over the rows of \<^verbatim>\<open>byChannel\<close> after the main loop.\<close>

definition finishRow :: "channelRow \<Rightarrow> channelRow" where
  "finishRow ch =
     (let chWordCounts = foldl (\<lambda>wc m. countWords (tokenize (contents m)) wc) [] (rowMessages ch);
          firstMsg = find hasValidTimestamp (rowMessages ch);
          lastMsg = find hasValidTimestamp (rev (rowMessages ch))
      in ch\<lparr> rowTopWords :=
               take 30 (filter (\<lambda>e. \<not> isEmojiKey (fst e)) (sortBy (byCountDesc snd) chWordCounts)),
             rowFirstMessageAt := (case firstMsg of None \<Rightarrow> None | Some m \<Rightarrow> timestamp m),
             rowLastMessageAt := (case lastMsg of None \<Rightarrow> None | Some m \<Rightarrow> timestamp m) \<rparr>)"

text \<open>\<^verbatim>\<open>Math.round\<close> of a quotient of two counts: the nearest integer, halves upwards.\<close>

definition Math_round :: "rat \<Rightarrow> int" where
  "Math_round x = \<lfloor>x + 1 / 2\<rfloor>"

definition buildSummary :: "host \<Rightarrow> parseResult \<Rightarrow> error + summary" where
  "buildSummary h result =
     (let msgs = filter hasValidTimestamp (messages result);
          timed = List.map_filter (\<lambda>m. map_option (\<lambda>t. (t, m)) (timeValue m)) (messages result)
      in case summaryLoop h (channelIdToName result) initAcc timed of
           Inl e \<Rightarrow> Inl e
         | Inr a \<Rightarrow>
             Inr \<lparr> messages = msgs, channels = channels result, guilds = guilds result,
                   account = account result, activity = activity result,
                   stats =
                     \<lparr> byChannel = sortBy (byCountDesc count) (map finishRow (byChannel a)),
                       byGuild = sortBy (byCountDesc rowCount) (byGuild a),
                       byDay = sortBy (\<lambda>x y. localeCompare h (fst x) (fst y) \<le> 0) (byDay a),
                       byHour = sortBy (\<lambda>x y. fst x \<le> fst y) (byHour a),
                       byDayOfWeek = sortBy (\<lambda>x y. fst x \<le> fst y) (byDayOfWeek a),
                       totalWords = totalWords a,
                       attachmentCount = attachmentCount a,
                       totalMessages = length msgs,
                       avgWordsPerMessage =
                         (if length msgs \<noteq> 0
                          then Math_round (of_nat (totalWords a) / of_nat (length msgs)) else 0),
                       firstMessageAt = map_option Date (firstTs a),
                       lastMessageAt = map_option Date (lastTs a),
                       topWords =
                         take 100 (filter (\<lambda>e. \<not> isEmojiKey (fst e))
                                     (sortBy (byCountDesc snd) (wordCounts a))),
                       topEmojis =
                         take 24 (sortBy (byCountDesc snd)
                                    (filter (\<lambda>e. isEmojiKey (fst e)) (wordCounts a))) \<rparr> \<rparr>)"

section \<open>Classifying raw data\<close>

text \<open>\<^verbatim>\<open>isMessageArray(data)\<close>\<close>

definition isMessageArray :: "jsval \<Rightarrow> bool" where
  "isMessageArray data =
     (case data of
        JArr (first # rest) \<Rightarrow>
          truthy first \<and> typeofObject first \<and>
          ((has ''Contents'' first \<or> has ''content'' first \<or> has ''contents'' first) \<or>
           (has ''Timestamp'' first \<or> has ''timestamp'' first \<or> has ''date'' first))
      | _ \<Rightarrow> False)"

text \<open>\<^verbatim>\<open>isChannelMeta(data)\<close>\<close>

definition isChannelMeta :: "jsval \<Rightarrow> bool" where
  "isChannelMeta data =
     (truthy data \<and> typeofObject data \<and>
      (has ''Channel ID'' data \<or> has ''channel_id'' data \<or> has ''Channel Id'' data \<or>
       has ''channelId'' data \<or>
       (has ''Guild ID'' data \<and> has ''Channel Name'' data) \<or>
       (has ''Guild ID'' data \<and> has ''channel_name'' data) \<or>
       (has ''User IDs'' data \<and> (has ''Channel ID'' data \<or> has ''channel_id'' data))))"

text \<open>\<^verbatim>\<open>v && (v.a ?? v.b ...)\<close>: the value itself when it is falsy.\<close>

definition guarded :: "jsval \<Rightarrow> jsval \<Rightarrow> jsval" where
  "guarded v w = (if truthy v then w else v)"

text \<open>
  \<^verbatim>\<open>normalizeChannelMeta(data)\<close>, for data that passed \<^verbatim>\<open>isChannelMeta\<close>. Calling
  \<^verbatim>\<open>startsWith\<close> on a truthy avatar value that is not a string throws.
\<close>

definition normalizeChannelMeta :: "jsval \<Rightarrow> error + channelMeta" where
  "normalizeChannelMeta data =
     (let recipients = nc (nc (getProp data ''Recipients'') (getProp data ''recipients''))
                          (getProp data ''User IDs'');
          firstRecipient =
            (case recipients of
               JArr xs \<Rightarrow> (case xs of [] \<Rightarrow> Undefined | x # _ \<Rightarrow> x)
             | _ \<Rightarrow> if typeofObject recipients then recipients else Null);
          channelId = nc (nc (nc (nc (getProp data ''Channel ID'') (getProp data ''channel_id''))
                                 (getProp data ''ChannelId'')) (getProp data ''channelId'')) Null;
          dmName = nc (nc (nc (getProp data ''Name'') (getProp data ''name''))
                          (getProp data ''display_name''))
                      (guarded firstRecipient
                         (nc (nc (getProp firstRecipient ''username'') (getProp firstRecipient ''name''))
                             (getProp firstRecipient ''global_name'')));
          avatarUrl = nc (nc (nc (getProp data ''icon_url'') (getProp data ''avatar''))
                             (getProp data ''avatar_url''))
                         (guarded firstRecipient
                            (nc (getProp firstRecipient ''avatar'') (getProp firstRecipient ''avatar_url'')));
          avatarFull =
            (if \<not> truthy avatarUrl then Inr avatarUrl
             else (case avatarUrl of
                     JStr u \<Rightarrow>
                       Inr (if startsWith u ''http'' then JStr u
                            else if truthy channelId
                            then JStr (''https://cdn.discordapp.com/avatars/'' @ ToString channelId @
                                       ''/'' @ u @ ''.png'')
                            else Null)
                   | _ \<Rightarrow> Inl TypeError))
      in case avatarFull of
           Inl e \<Rightarrow> Inl e
         | Inr full \<Rightarrow>
             Inr \<lparr> channelId = channelId,
                   guildId = nc (nc (nc (getProp data ''Guild ID'') (getProp data ''guild_id''))
                                    (getProp data ''GuildId'')) Null,
                   channelName = nc (nc (nc (nc (getProp data ''Channel Name'')
                                                (getProp data ''channel_name''))
                                            (getProp data ''ChannelName'')) dmName) (JStr ''Unknown''),
                   guildName = nc (nc (nc (getProp data ''Guild Name'') (getProp data ''guild_name''))
                                      (getProp data ''GuildName'')) Null,
                   avatarUrl = (if truthy full then full else Null),
                   userIds = nc (nc (getProp data ''User IDs'') (getProp data ''user_ids'')) Null,
                   recipients = (case recipients of
                                   JArr xs \<Rightarrow> recipients
                                 | _ \<Rightarrow> if truthy firstRecipient then JArr [firstRecipient]
                                        else Null) \<rparr>)"

section \<open>Paths\<close>

text \<open>\<^verbatim>\<open>s.split('/')\<close>; the first argument is the piece being read, reversed.\<close>

fun splitSlash :: "string \<Rightarrow> string \<Rightarrow> string list" where
  "splitSlash cur [] = [rev cur]"
| "splitSlash cur (c # cs) =
     (if c = CHR ''/'' then rev cur # splitSlash [] cs else splitSlash (c # cur) cs)"

definition pathParts :: "string \<Rightarrow> string list" where
  "pathParts p = splitSlash [] p"

text \<open>\<^verbatim>\<open>p.split('/').pop()\<close>\<close>

definition lastSegment :: "string \<Rightarrow> string" where
  "lastSegment p = last (pathParts p)"

text \<open>\<^verbatim>\<open>path.replace(/\\/g, '/')\<close> and \<^verbatim>\<open>.replace(/^\/+/, '')\<close>\<close>

definition slashes :: "string \<Rightarrow> string" where
  "slashes p = map (\<lambda>c. if c = CHR 0x5C then CHR ''/'' else c) p"

definition cleanPath :: "string \<Rightarrow> string" where
  "cleanPath p = dropWhile (\<lambda>c. c = CHR ''/'') (slashes p)"

text \<open>\<^verbatim>\<open>s.indexOf(p)\<close>, None for -1.\<close>

fun indexOf :: "string \<Rightarrow> string \<Rightarrow> nat option" where
  "indexOf [] p = (if p = [] then Some 0 else None)"
| "indexOf (c # cs) p =
     (if startsWith (c # cs) p then Some 0 else map_option Suc (indexOf cs p))"

definition CHANNEL_META_NAMES :: "string list" where
  "CHANNEL_META_NAMES = [''channel.json'', ''metadata.json'']"

definition isMetaName :: "string \<Rightarrow> bool" where
  "isMetaName name = list_ex (\<lambda>n. toLowerCase name = toLowerCase n) CHANNEL_META_NAMES"

section \<open>The parse pipelines\<close>

text \<open>
  A file of the export is its path and what reading it and \<^verbatim>\<open>JSON.parse\<close> on its text
  give: None when either throws.
\<close>

type_synonym fileEntry = "string \<times> jsval option"

definition emptyMeta :: channelMeta where
  "emptyMeta =
     \<lparr> channelId = Undefined, guildId = Undefined, channelName = Undefined,
       guildName = Undefined, avatarUrl = Undefined, userIds = Undefined, recipients = Undefined \<rparr>"

text \<open>\<^verbatim>\<open>result.guilds.set(g.id, g)\<close>\<close>

fun setGuild :: "guild \<Rightarrow> guild list \<Rightarrow> guild list" where
  "setGuild g [] = [g]"
| "setGuild g (x # xs) = (if gid x = gid g then g # xs else x # setGuild g xs)"

text \<open>
  What both pipelines record of a channel's metadata besides \<^verbatim>\<open>channelMetaByPath\<close>: the
  channel, its guild, and for a direct-message channel with a usable name the name
  under the channel ID and under the directory name.
\<close>

definition noteMeta :: "channelMeta \<Rightarrow> string \<Rightarrow> parseResult \<Rightarrow> parseResult" where
  "noteMeta meta channelPath r =
     (let r1 = r\<lparr> channels := channels r @ [(meta, channelPath)] \<rparr>;
          r2 = (if truthy (guildId meta) \<and> truthy (guildName meta)
                then r1\<lparr> guilds := setGuild \<lparr> gid = guildId meta, gname = guildName meta \<rparr> (guilds r1) \<rparr>
                else r1)
      in if \<not> truthy (guildId meta) \<and> truthy (channelId meta) \<and> truthy (channelName meta) \<and>
            \<not> looksLikeId (channelName meta) \<and> channelName meta \<noteq> JStr ''Unknown''
         then
           (let names1 = (channelIdToName r2)(ToString (channelId meta) \<mapsto> channelName meta);
                pathId = lastSegment channelPath;
                names2 = (if pathId \<noteq> [] \<and> JStr pathId \<noteq> channelId meta
                          then names1(pathId \<mapsto> channelName meta) else names1)
            in r2\<lparr> channelIdToName := names2 \<rparr>)
         else r2)"

text \<open>The channel fields a message gets from its channel's metadata.\<close>

definition fillMessage :: "channelMeta \<Rightarrow> string \<Rightarrow> (string \<rightharpoonup> jsval) \<Rightarrow> message \<Rightarrow> message" where
  "fillMessage meta channelPath names m =
     (let cid = nc (channelId meta) (JStr (lastSegment channelPath))
      in m\<lparr> channelId := cid,
            guildId := guildId meta,
            channelName :=
              (if \<not> truthy (guildId meta)
               then (if truthy (channelName meta) \<and> \<not> looksLikeId (channelName meta)
                     then channelName meta
                     else nc (lookupName names (ToString (nc (channelId meta) cid))) Null)
               else nc (channelName meta) cid),
            guildName := guildName meta,
            avatarUrl := nc (avatarUrl meta) Null \<rparr>)"

text \<open>
  \<^verbatim>\<open>for (const msg of data) { ... result.messages.push(m); }\<close> inside the \<^verbatim>\<open>try\<close>: an
  element that makes \<^verbatim>\<open>normalizeMessage\<close> throw ends the loop, and the messages pushed
  before it stay. The flag says that the loop reached its end.
\<close>

fun pushMessages :: "host \<Rightarrow> channelMeta \<Rightarrow> string \<Rightarrow> parseResult \<Rightarrow> jsval list \<Rightarrow> parseResult \<times> bool" where
  "pushMessages h meta channelPath r [] = (r, True)"
| "pushMessages h meta channelPath r (msg # rest) =
     (case normalizeMessage h msg of
        Inl e \<Rightarrow> (r, False)
      | Inr m \<Rightarrow>
          pushMessages h meta channelPath
            (r\<lparr> messages := messages r @ [fillMessage meta channelPath (channelIdToName r) m] \<rparr>) rest)"

text \<open>
  The body of the \<^verbatim>\<open>try\<close> for one message file once its data is at hand and its
  metadata looked up. The flag is False when the body left by \<^verbatim>\<open>continue\<close> or by an
  exception, so that the progress report at its end was skipped.
\<close>

definition readMessages :: "host \<Rightarrow> channelMeta \<Rightarrow> string \<Rightarrow> parseResult \<Rightarrow> jsval option \<Rightarrow> parseResult \<times> bool" where
  "readMessages h meta channelPath r content =
     (case content of
        None \<Rightarrow> (r, False)
      | Some data \<Rightarrow>
          (case data of
             JArr msgs \<Rightarrow>
               if isMessageArray data then pushMessages h meta channelPath r msgs else (r, False)
           | _ \<Rightarrow> (r, False)))"

text \<open>\<^verbatim>\<open>setIndexName(id, name)\<close> over the entries of an index array.\<close>

fun setIndexNames :: "(string \<rightharpoonup> jsval) \<Rightarrow> jsval list \<Rightarrow> (string \<rightharpoonup> jsval)" where
  "setIndexNames names [] = names"
| "setIndexNames names (c # cs) =
     (if nullish c then names
      else
        (let cid = nc (nc (getProp c ''id'') (getProp c ''channel_id'')) (getProp c ''channelId'');
             name = nc (nc (getProp c ''name'') (getProp c ''channel_name'')) (getProp c ''channelName'')
         in setIndexNames
              (if truthy cid \<and> \<not> nullish name then names(ToString cid \<mapsto> JStr (ToString name))
               else names) cs))"

text \<open>\<^verbatim>\<open>v?.k\<close>\<close>

definition optProp :: "jsval \<Rightarrow> string \<Rightarrow> jsval" where
  "optProp v k = (if nullish v then Undefined else getProp v k)"

text \<open>The \<^verbatim>\<open>Object.entries(indexData).forEach\<close> branch.\<close>

fun setIndexEntries :: "(string \<rightharpoonup> jsval) \<Rightarrow> (string \<times> jsval) list \<Rightarrow> (string \<rightharpoonup> jsval)" where
  "setIndexEntries names [] = names"
| "setIndexEntries names ((k, v) # es) =
     setIndexEntries
       (names(k \<mapsto> (case v of
                      JStr s \<Rightarrow> v
                    | _ \<Rightarrow> nc (nc (nc (optProp v ''name'') (optProp v ''channel_name''))
                                 (optProp v ''channelName'')) (JStr k)))) es"

text \<open>
  The body of the \<^verbatim>\<open>try\<close> that reads the global index. The three shapes in the source's
  order; an exception (a null element, null data) leaves what was written before it.
\<close>

definition applyIndex :: "jsval option \<Rightarrow> (string \<rightharpoonup> jsval) \<Rightarrow> (string \<rightharpoonup> jsval)" where
  "applyIndex content names =
     (case content of
        None \<Rightarrow> names
      | Some indexData \<Rightarrow>
          (case indexData of
             JArr cs \<Rightarrow> setIndexNames names cs
           | JObj kvs \<Rightarrow>
               (case getProp indexData ''channels'' of
                  JArr cs \<Rightarrow> setIndexNames names cs
                | _ \<Rightarrow> setIndexEntries names kvs)
           | _ \<Rightarrow> names))"

subsection \<open>parseZip\<close>

text \<open>
  The entries of the archive that are not directories, in the archive's order;
  \<^verbatim>\<open>zip.file(path)\<close> finds the entry of a path.
\<close>

definition zipFile :: "fileEntry list \<Rightarrow> string \<Rightarrow> jsval option option" where
  "zipFile files path = map_of files path"

text \<open>The first loop: which files are metadata candidates, which message candidates.\<close>

definition zipCandidate :: "string \<Rightarrow> (string \<times> string) option" where
  "zipCandidate path =
     (if \<not> endsWith (toLowerCase path) ''.json'' then None
      else
        (let parts = pathParts path
         in if hd parts = ''messages'' \<and> length parts \<ge> 3
            then Some (path, join ''/'' (butlast parts)) else None))"

definition zipMessageFiles :: "fileEntry list \<Rightarrow> (string \<times> string) list" where
  "zipMessageFiles files = List.map_filter (\<lambda>f. zipCandidate (fst f)) files"

definition zipMetaFiles :: "fileEntry list \<Rightarrow> (string \<times> string) list" where
  "zipMetaFiles files = filter (\<lambda>c. isMetaName (last (pathParts (fst c)))) (zipMessageFiles files)"

text \<open>The body of the loop over \<^verbatim>\<open>metaFiles\<close>, with its \<^verbatim>\<open>try\<close> and empty \<^verbatim>\<open>catch\<close>.\<close>

definition zipReadMeta :: "fileEntry list \<Rightarrow> parseResult \<Rightarrow> string \<times> string \<Rightarrow> parseResult" where
  "zipReadMeta files r c =
     (case zipFile files (fst c) of
        None \<Rightarrow> r
      | Some None \<Rightarrow> r
      | Some (Some data) \<Rightarrow>
          if isChannelMeta data then
            (case normalizeChannelMeta data of
               Inl e \<Rightarrow> r
             | Inr meta \<Rightarrow>
                 noteMeta meta (snd c)
                   (r\<lparr> channelMetaByPath := (channelMetaByPath r)(snd c \<mapsto> meta) \<rparr>))
          else r)"

text \<open>The body of the loop over \<^verbatim>\<open>messageFiles\<close>, without its progress report.\<close>

definition zipReadMessages :: "host \<Rightarrow> fileEntry list \<Rightarrow> parseResult \<Rightarrow> string \<times> string \<Rightarrow> parseResult \<times> bool" where
  "zipReadMessages h files r c =
     (case zipFile files (fst c) of
        None \<Rightarrow> (r, False)
      | Some content \<Rightarrow>
          readMessages h
            (case channelMetaByPath r (snd c) of None \<Rightarrow> emptyMeta | Some meta \<Rightarrow> meta)
            (snd c) r content)"

text \<open>
  The loop over \<^verbatim>\<open>messageFiles\<close>; \<open>i\<close> is the index of the head of the list. It returns
  the result and the percentages it reported.
\<close>

fun zipMessageLoop :: "host \<Rightarrow> fileEntry list \<Rightarrow> nat \<Rightarrow> nat \<Rightarrow> parseResult \<Rightarrow> (string \<times> string) list \<Rightarrow> parseResult \<times> rat list" where
  "zipMessageLoop h files totalMsgFiles i r [] = (r, [])"
| "zipMessageLoop h files totalMsgFiles i r (c # cs) =
     (let (r1, reached) = zipReadMessages h files r c;
          rep = (if reached \<and> ((i + 1) mod 5 = 0 \<or> i = totalMsgFiles - 1)
                 then [10 + of_nat ((70 * (i + 1)) div totalMsgFiles)] else []);
          (r2, reps) = zipMessageLoop h files totalMsgFiles (i + 1) r1 cs
      in (r2, rep @ reps))"

text \<open>The loop that takes the first readable JSON file under \<^verbatim>\<open>account/\<close>.\<close>

fun zipAccount :: "fileEntry list \<Rightarrow> parseResult \<Rightarrow> fileEntry list \<Rightarrow> parseResult" where
  "zipAccount files r [] = r"
| "zipAccount files r (f # fs) =
     (if startsWith (fst f) ''account/'' \<and> endsWith (toLowerCase (fst f)) ''.json''
      then (case zipFile files (fst f) of
              None \<Rightarrow> r
            | Some None \<Rightarrow> zipAccount files r fs
            | Some (Some v) \<Rightarrow> r\<lparr> account := v \<rparr>)
      else zipAccount files r fs)"

definition zipIndexFile :: "fileEntry list \<Rightarrow> fileEntry option" where
  "zipIndexFile files =
     find (\<lambda>f. let p = toLowerCase (slashes (fst f))
               in p = ''messages/index.json'' \<or> endsWith p ''/messages/index.json'') files"

definition zipIndex :: "fileEntry list \<Rightarrow> parseResult \<Rightarrow> parseResult" where
  "zipIndex files r =
     (case zipIndexFile files of
        None \<Rightarrow> r
      | Some f \<Rightarrow>
          (case zipFile files (fst f) of
             None \<Rightarrow> r
           | Some content \<Rightarrow> r\<lparr> channelIdToName := applyIndex content (channelIdToName r) \<rparr>))"

definition zipInit :: parseResult where
  "zipInit =
     \<lparr> messages = [], channels = [], guilds = [], account = Null, activity = Null,
       channelMetaByPath = Map.empty, channelIdToName = Map.empty \<rparr>"

text \<open>The parse result that \<^verbatim>\<open>parseZip\<close> hands to \<^verbatim>\<open>buildSummary\<close>, and its reports.\<close>

definition zipResult :: "host \<Rightarrow> fileEntry list \<Rightarrow> parseResult \<times> rat list" where
  "zipResult h files =
     (let messageFiles = zipMessageFiles files;
          r1 = foldl (zipReadMeta files) zipInit (zipMetaFiles files);
          (r2, reps) = zipMessageLoop h files (length messageFiles) 0 r1 messageFiles;
          r3 = zipAccount files r2 files;
          r4 = zipIndex files r3
      in (r4, [0, 5, 10] @ reps @ [80, 95]))"

text \<open>
  \<^verbatim>\<open>parseZip\<close>, from the point where the archive is open: the percentages passed to
  \<^verbatim>\<open>onProgress\<close>, in order, and the summary or the exception of \<^verbatim>\<open>buildSummary\<close>.
\<close>

definition parseZip :: "host \<Rightarrow> fileEntry list \<Rightarrow> rat list \<times> (error + summary)" where
  "parseZip h files = (snd (zipResult h files), buildSummary h (fst (zipResult h files)))"

subsection \<open>parseFileList\<close>

text \<open>\<^verbatim>\<open>p.split('/').filter(Boolean)\<close>\<close>

definition segments :: "string \<Rightarrow> string list" where
  "segments p = filter (\<lambda>s. s \<noteq> []) (pathParts p)"

text \<open>\<^verbatim>\<open>parts[parts.length - 1] || ''\<close>\<close>

definition fileName :: "string list \<Rightarrow> string" where
  "fileName parts = (if parts = [] then [] else last parts)"

text \<open>The channel path that the first loop gives a cleaned path, None for null.\<close>

definition listChannelPath :: "string \<Rightarrow> string option" where
  "listChannelPath p =
     (let parts = segments p
      in if length parts \<ge> 3 \<and> toLowerCase (hd parts) = ''messages''
         then Some (join ''/'' (butlast parts))
         else
           (case indexOf (toLowerCase p) ''messages/'' of
              Some i \<Rightarrow>
                if length parts \<ge> 2 then
                  (let segs = segments (drop i p)
                   in if length segs \<ge> 2 then Some (join ''/'' (butlast segs)) else None)
                else if length parts = 2 then Some (hd parts) else None
            | None \<Rightarrow> if length parts = 2 then Some (hd parts) else None))"

text \<open>A candidate is its cleaned path, its channel path and the file's data.\<close>

type_synonym candidate = "string \<times> string \<times> jsval option"

definition listCandidate :: "fileEntry \<Rightarrow> candidate option" where
  "listCandidate f =
     (let p = cleanPath (fst f)
      in if \<not> endsWith (toLowerCase p) ''.json'' then None
         else (case listChannelPath p of
                 None \<Rightarrow> None
               | Some channelPath \<Rightarrow>
                   if channelPath = [] then None else Some (p, channelPath, snd f)))"

definition listPrimary :: "fileEntry list \<Rightarrow> candidate list" where
  "listPrimary files = List.map_filter listCandidate files"

definition listMetaFiles :: "fileEntry list \<Rightarrow> candidate list" where
  "listMetaFiles files = filter (\<lambda>c. isMetaName (fileName (segments (fst c)))) (listPrimary files)"

text \<open>The second scan, for any file named \<^verbatim>\<open>messages.json\<close>.\<close>

definition listFallbackCandidate :: "fileEntry \<Rightarrow> candidate option" where
  "listFallbackCandidate f =
     (let p = cleanPath (fst f);
          parts = segments p;
          name = fileName parts
      in if toLowerCase name \<noteq> ''messages.json'' then None
         else Some (p,
                    (if length parts \<ge> 2 then join ''/'' (butlast parts)
                     else if parts \<noteq> [] \<and> hd parts \<noteq> [] then hd parts else ''unknown''),
                    snd f))"

definition listFallback :: "fileEntry list \<Rightarrow> candidate list" where
  "listFallback files = List.map_filter listFallbackCandidate files"

definition listMessageCandidates :: "fileEntry list \<Rightarrow> candidate list" where
  "listMessageCandidates files =
     (if length (listPrimary files) = 0 then listFallback files else listPrimary files)"

text \<open>The body of the loop over \<^verbatim>\<open>metaFiles\<close>, without its progress report.\<close>

definition listReadMeta :: "parseResult \<Rightarrow> candidate \<Rightarrow> parseResult \<times> bool" where
  "listReadMeta r c =
     (let channelPath = fst (snd c)
      in case snd (snd c) of
           None \<Rightarrow> (r, False)
         | Some data \<Rightarrow>
             if isChannelMeta data then
               (case normalizeChannelMeta data of
                  Inl e \<Rightarrow> (r, False)
                | Inr meta \<Rightarrow>
                    (let byPath1 = (channelMetaByPath r)(channelPath \<mapsto> meta);
                         byPath2 = (if truthy (channelId meta)
                                    then byPath1(ToString (channelId meta) \<mapsto> meta) else byPath1);
                         byPath3 = (if lastSegment channelPath \<noteq> [] \<and>
                                       lastSegment channelPath \<noteq> channelPath
                                    then byPath2(lastSegment channelPath \<mapsto> meta) else byPath2)
                     in (noteMeta meta channelPath (r\<lparr> channelMetaByPath := byPath3 \<rparr>), True)))
             else (r, True))"

fun listMetaLoop :: "nat \<Rightarrow> nat \<Rightarrow> parseResult \<Rightarrow> candidate list \<Rightarrow> parseResult \<times> rat list" where
  "listMetaLoop totalMeta mi r [] = (r, [])"
| "listMetaLoop totalMeta mi r (c # cs) =
     (let (r1, reached) = listReadMeta r c;
          rep = (if reached \<and> totalMeta > 0 \<and> (mi + 1) mod 5 = 0
                 then [min 5 (of_nat (5 * (mi + 1)) / of_nat totalMeta)] else []);
          (r2, reps) = listMetaLoop totalMeta (mi + 1) r1 cs
      in (r2, rep @ reps))"

text \<open>\<^verbatim>\<open>getMeta(channelPath)\<close>\<close>

definition getMeta :: "parseResult \<Rightarrow> string \<Rightarrow> channelMeta" where
  "getMeta r channelPath =
     (let lastSeg = lastSegment channelPath
      in case channelMetaByPath r channelPath of
           Some meta \<Rightarrow> meta
         | None \<Rightarrow>
             (case channelMetaByPath r lastSeg of
                Some meta \<Rightarrow> meta
              | None \<Rightarrow>
                  (if lastSeg \<noteq> [] then
                     (case channelMetaByPath r (''messages/'' @ lastSeg) of
                        Some meta \<Rightarrow> meta
                      | None \<Rightarrow> emptyMeta)
                   else emptyMeta)))"

definition listReadMessages :: "host \<Rightarrow> parseResult \<Rightarrow> candidate \<Rightarrow> parseResult \<times> bool" where
  "listReadMessages h r c =
     readMessages h (getMeta r (fst (snd c))) (fst (snd c)) r (snd (snd c))"

fun listMessageLoop :: "host \<Rightarrow> nat \<Rightarrow> nat \<Rightarrow> parseResult \<Rightarrow> candidate list \<Rightarrow> parseResult \<times> rat list" where
  "listMessageLoop h totalMsg mi r [] = (r, [])"
| "listMessageLoop h totalMsg mi r (c # cs) =
     (let (r1, reached) = listReadMessages h r c;
          rep = (if reached \<and> totalMsg > 0 \<and> (mi + 1) mod 10 = 0
                 then [5 + of_nat ((80 * (mi + 1)) div totalMsg)] else []);
          (r2, reps) = listMessageLoop h totalMsg (mi + 1) r1 cs
      in (r2, rep @ reps))"

definition listAccount :: "fileEntry list \<Rightarrow> parseResult \<Rightarrow> parseResult" where
  "listAccount files r =
     (case find (\<lambda>f. let p = toLowerCase (slashes (fst f))
                     in startsWith p ''account/'' \<and> endsWith p ''.json'') files of
        None \<Rightarrow> r
      | Some f \<Rightarrow> (case snd f of None \<Rightarrow> r | Some v \<Rightarrow> r\<lparr> account := v \<rparr>))"

definition listIndex :: "fileEntry list \<Rightarrow> parseResult \<Rightarrow> parseResult" where
  "listIndex files r =
     (case find (\<lambda>f. let p = toLowerCase (slashes (fst f))
                     in p = ''messages/index.json'' \<or> endsWith p ''/messages/index.json'' \<or>
                        p = ''index.json'') files of
        None \<Rightarrow> r
      | Some f \<Rightarrow> r\<lparr> channelIdToName := applyIndex (snd f) (channelIdToName r) \<rparr>)"

definition listInit :: parseResult where
  "listInit =
     \<lparr> messages = [], channels = [], guilds = [], account = Undefined, activity = Undefined,
       channelMetaByPath = Map.empty, channelIdToName = Map.empty \<rparr>"

text \<open>
  The parse result that \<^verbatim>\<open>parseFileList\<close> hands to \<^verbatim>\<open>buildSummary\<close>, and its reports;
  \<open>files\<close> is the list that \<^verbatim>\<open>normalizeFileList\<close> returned.
\<close>

definition listResult :: "host \<Rightarrow> fileEntry list \<Rightarrow> parseResult \<times> rat list" where
  "listResult h files =
     (let metaFiles = listMetaFiles files;
          messageCandidates = listMessageCandidates files;
          (r1, metaReps) = listMetaLoop (length metaFiles) 0 listInit metaFiles;
          (r2, reps) = listMessageLoop h (length messageCandidates) 0 r1 messageCandidates;
          r3 = listAccount files r2;
          r4 = listIndex files r3
      in (r4, [0] @ metaReps @ [5] @ reps @ [85]))"

definition parseFileList :: "host \<Rightarrow> fileEntry list \<Rightarrow> rat list \<times> (error + summary)" where
  "parseFileList h files = (snd (listResult h files), buildSummary h (fst (listResult h files)))"

text \<open>
  A reference host for concrete runs: the UTC zone, comparison of strings by code units,
  and a parser for the ISO form \<^verbatim>\<open>YYYY-MM-DDTHH:mm:ssZ\<close> only.
\<close>

definition daysFromCivil :: "int \<Rightarrow> int \<Rightarrow> int \<Rightarrow> int" where
  "daysFromCivil y0 m d =
     (let y = (if m \<le> 2 then y0 - 1 else y0);
          era = y div 400;
          yoe = y - era * 400;
          doy = (153 * (if m > 2 then m - 3 else m + 9) + 2) div 5 + d - 1;
          doe = yoe * 365 + yoe div 4 - yoe div 100 + doy
      in era * 146097 + doe - 719468)"

definition digitVal :: "string \<Rightarrow> int option" where
  "digitVal s = (if s \<noteq> [] \<and> list_all isDigit s
                 then Some (foldl (\<lambda>n c. 10 * n + (int (code c) - 48)) 0 s) else None)"

definition isoParse :: "string \<Rightarrow> int option" where
  "isoParse s =
     (if length s = 20 \<and> s ! 4 = CHR ''-'' \<and> s ! 7 = CHR ''-'' \<and> s ! 10 = CHR ''T'' \<and>
         s ! 13 = CHR '':'' \<and> s ! 16 = CHR '':'' \<and> s ! 19 = CHR ''Z''
      then
        (case (digitVal (take 4 s), digitVal (take 2 (drop 5 s)), digitVal (take 2 (drop 8 s)),
               digitVal (take 2 (drop 11 s)), digitVal (take 2 (drop 14 s)),
               digitVal (take 2 (drop 17 s))) of
           (Some y, Some mo, Some d, Some hh, Some mi, Some ss) \<Rightarrow>
             if 1 \<le> mo \<and> mo \<le> 12 \<and> 1 \<le> d \<and>
                civilFromDays (daysFromCivil y mo d) = (y, mo, d) \<and>
                hh \<le> 23 \<and> mi \<le> 59 \<and> ss \<le> 59
             then Some (daysFromCivil y mo d * 86400000 + hh * 3600000 + mi * 60000 + ss * 1000)
             else None
         | _ \<Rightarrow> None)
      else None)"

fun compareUnits :: "string \<Rightarrow> string \<Rightarrow> int" where
  "compareUnits [] [] = 0"
| "compareUnits [] (y # ys) = - 1"
| "compareUnits (x # xs) [] = 1"
| "compareUnits (x # xs) (y # ys) =
     (if code x < code y then - 1 else if code y < code x then 1 else compareUnits xs ys)"

definition utcHost :: host where
  "utcHost = \<lparr> dateParse = isoParse, localTZA = (\<lambda>t. 0), localeCompare = compareUnits \<rparr>"

section \<open>Example data\<close>

text \<open>A message as the pipelines leave it, and a parse result around a list of messages.\<close>

definition mkMessage :: "string \<Rightarrow> date option \<Rightarrow> jsval \<Rightarrow> jsval \<Rightarrow> jsval \<Rightarrow> message" where
  "mkMessage text ts cid gd name =
     \<lparr> channelId = cid, guildId = gd, channelName = name, guildName = Null, avatarUrl = Null,
       msgId = Null, timestamp = ts, contents = text, attachments = [] \<rparr>"

definition mkResult :: "message list \<Rightarrow> (string \<times> jsval) list \<Rightarrow> parseResult" where
  "mkResult ms names =
     \<lparr> messages = ms, channels = [], guilds = [], account = Null, activity = Null,
       channelMetaByPath = Map.empty, channelIdToName = map_of names \<rparr>"

text \<open>A raw message object with a timestamp and contents.\<close>

definition rawMessage :: "jsval \<Rightarrow> string \<Rightarrow> jsval" where
  "rawMessage ts text = JObj [(''Timestamp'', ts), (''Contents'', JStr text)]"


text \<open>
  Three more archives: one whose first transcript cannot be parsed; one whose
  transcript has a null element between two messages; and one that keeps its
  transcript outside the messages directory.
\<close>

definition brokenArchive :: "fileEntry list" where
  "brokenArchive =
     [(''messages/c1/messages.json'', None),
      (''messages/c2/messages.json'',
       Some (JArr [rawMessage (JStr ''2024-01-01T05:00:00Z'') ''hello'']))]"


definition looseArchive :: "fileEntry list" where
  "looseArchive =
     [(''export/c1/messages.json'',
       Some (JArr [rawMessage (JStr ''2024-01-01T05:00:00Z'') ''hello'']))]"

text \<open>
  Archives with a global index. In the first, a guild channel 42 whose metadata gives
  the literal ID as its name, a directory c43 without metadata, and an index that
  names the IDs 42 and 43. In the second, a direct-message channel that its metadata names "Bob" under the
  ID c42, and an index that names the ID 42. In the third, a directory without metadata
  whose ID the index maps to an identifier-shaped name.
\<close>

definition indexedArchive :: "fileEntry list" where
  "indexedArchive =
     [(''messages/42/channel.json'',
       Some (JObj [(''Channel ID'', JStr ''42''), (''Guild ID'', JStr ''7''),
                   (''Channel Name'', JStr ''42'')])),
      (''messages/42/messages.json'',
       Some (JArr [rawMessage (JStr ''2024-01-01T05:00:00Z'') ''hello''])),
      (''messages/c43/messages.json'',
       Some (JArr [rawMessage (JStr ''2024-01-02T05:00:00Z'') ''hello''])),
      (''messages/index.json'',
       Some (JObj [(''42'', JStr ''team-chat''), (''43'', JStr ''other-chat'')]))]"

definition bobArchive :: "fileEntry list" where
  "bobArchive =
     [(''messages/c42/channel.json'',
       Some (JObj [(''Channel ID'', JStr ''c42''), (''Name'', JStr ''Bob'')])),
      (''messages/c42/messages.json'',
       Some (JArr [rawMessage (JStr ''2024-01-01T05:00:00Z'') ''hello''])),
      (''messages/index.json'', Some (JObj [(''42'', JStr ''team-chat'')]))]"

definition idNamedArchive :: "fileEntry list" where
  "idNamedArchive =
     [(''messages/42/messages.json'',
       Some (JArr [rawMessage (JStr ''2024-01-01T05:00:00Z'') ''hello''])),
      (''messages/index.json'', Some (JObj [(''42'', JStr ''123456789012345678'')]))]"




section \<open>Notions of the specification\<close>

text \<open>
  The name the global index gives a channel: the entry under the channel's ID, or else
  under the ID with its non-digit prefix stripped.
\<close>

definition indexName :: "(string \<rightharpoonup> jsval) \<Rightarrow> jsval \<Rightarrow> jsval" where
  "indexName names key =
     (if \<not> nullish (lookupName names (ToString key)) then lookupName names (ToString key)
      else (case key of JStr k \<Rightarrow> lookupName names (stripNonDigitPrefix k) | _ \<Rightarrow> Undefined))"

text \<open>The key of a message's channel in \<^verbatim>\<open>byChannel\<close>: \<^verbatim>\<open>m.channelId ?? 'dm'\<close>.\<close>

definition channelKey :: "message \<Rightarrow> jsval" where
  "channelKey m = nc (channelId m) (JStr ''dm'')"


text \<open>Two rows stand for the same channel under the same name.\<close>

definition sameChannel :: "channelRow \<Rightarrow> channelRow \<Rightarrow> bool" where
  "sameChannel a b =
     (channelId a = channelId b \<and> guildId a = guildId b \<and> channelName a = channelName b)"

text \<open>
  The names that the global index file gives by itself: what the index loader writes
  into an empty dictionary. For an entry of the flat shape without a name the loader
  writes the channel's ID.
\<close>

definition indexNames :: "jsval option \<Rightarrow> (string \<rightharpoonup> jsval)" where
  "indexNames content = applyIndex content Map.empty"

text \<open>
  The data of the global index file as each pipeline reads it, None when there is no
  index file or it cannot be read or parsed.
\<close>

definition zipIndexContent :: "fileEntry list \<Rightarrow> jsval option" where
  "zipIndexContent files =
     (case zipIndexFile files of
        None \<Rightarrow> None
      | Some f \<Rightarrow> (case zipFile files (fst f) of None \<Rightarrow> None | Some content \<Rightarrow> content))"

definition listIndexContent :: "fileEntry list \<Rightarrow> jsval option" where
  "listIndexContent files =
     (case find (\<lambda>f. let p = toLowerCase (slashes (fst f))
                     in p = ''messages/index.json'' \<or> endsWith p ''/messages/index.json'' \<or>
                        p = ''index.json'') files of
        None \<Rightarrow> None
      | Some f \<Rightarrow> snd f)"

text \<open>
  The names that the metadata pass of each pipeline has recorded for direct-message
  channels, under their channel IDs and directory names.
\<close>

definition zipMetaNames :: "fileEntry list \<Rightarrow> (string \<rightharpoonup> jsval)" where
  "zipMetaNames files = channelIdToName (foldl (zipReadMeta files) zipInit (zipMetaFiles files))"

definition listMetaNames :: "fileEntry list \<Rightarrow> (string \<rightharpoonup> jsval)" where
  "listMetaNames files =
     channelIdToName (fst (listMetaLoop (length (listMetaFiles files)) 0 listInit (listMetaFiles files)))"

text \<open>The count a frequency map holds for a key, 0 when the key is absent.\<close>

definition countOf :: "('k \<times> nat) list \<Rightarrow> 'k \<Rightarrow> nat" where
  "countOf wc k = (case map_of wc k of None \<Rightarrow> 0 | Some c \<Rightarrow> c)"

text \<open>
  The standalone occurrences of an emoji key in a text: the tokens of the text, as the
  tokenizer delimits and lower-cases them, that are the key.
\<close>

definition standalone :: "string \<Rightarrow> string \<Rightarrow> nat" where
  "standalone k text = count_list (tokenize text) k"

text \<open>
  Its embedded occurrences: the matches of the emoji pattern, lower-cased, that are the
  key and lie inside a longer token.
\<close>

definition embedded :: "string \<Rightarrow> string \<Rightarrow> nat" where
  "embedded k text =
     sum_list (map (\<lambda>t. count_list (matchEmojis t) k) (filter (\<lambda>t. t \<noteq> k) (tokenize text)))"







text \<open>
  The parse result of each pipeline when its two loops run over given lists of
  candidates: the metadata loop, the message loop, then the account and the index.
\<close>

definition zipParseOf ::
  "host \<Rightarrow> fileEntry list \<Rightarrow> (string \<times> string) list \<Rightarrow> (string \<times> string) list \<Rightarrow> parseResult" where
  "zipParseOf h files metas msgs =
     zipIndex files
       (zipAccount files
          (foldl (\<lambda>r c. fst (zipReadMessages h files r c))
             (foldl (zipReadMeta files) zipInit metas) msgs) files)"

definition listParseOf ::
  "host \<Rightarrow> fileEntry list \<Rightarrow> candidate list \<Rightarrow> candidate list \<Rightarrow> parseResult" where
  "listParseOf h files metas msgs =
     listIndex files
       (listAccount files
          (foldl (\<lambda>r c. fst (listReadMessages h r c))
             (foldl (\<lambda>r c. fst (listReadMeta r c)) listInit metas) msgs))"





section \<open>Timestamps of normalized messages\<close>

lemma normalizeMessage_ts:
  "normalizeMessage h msg = Inr m \<Longrightarrow>
   timestamp m = (if truthy (rawTimestamp msg) then
                    (case newDate h (rawTimestamp msg) of InvalidDate \<Rightarrow> None
                     | Date t \<Rightarrow> Some (TimeClip (t + TZ_OFFSET_MS))) else None)"
  by (auto simp: normalizeMessage_def Let_def split: if_splits date.splits)

text \<open>
  C2, as the code has it. The stored timestamp is null when the raw value is falsy or
  gives an invalid date. When the raw value is truthy and gives a valid date whose
  instant five hours earlier is still a time value, that earlier instant is stored.
\<close>

theorem normalizeMessage_timestamp:
  assumes "normalizeMessage h msg = Inr m"
  shows "(\<not> truthy (rawTimestamp msg) \<or> newDate h (rawTimestamp msg) = InvalidDate
            \<longrightarrow> timestamp m = None) \<and>
         (truthy (rawTimestamp msg) \<and> newDate h (rawTimestamp msg) = Date t \<and>
              \<bar>t - 18000000\<bar> \<le> 8640000000000000
            \<longrightarrow> timestamp m = Some (Date (t - 18000000)))"
  using normalizeMessage_ts[OF assms]
  by (auto simp: TimeClip_def TZ_OFFSET_MS_def TZ_OFFSET_HOURS_def)

text \<open>
  The example of the specification: the raw timestamp 2024-01-01T05:00:00Z is stored as
  the instant of 2024-01-01T00:00:00Z; and a raw timestamp that does not parse is stored
  as null.
\<close>

theorem normalizeMessage_timestamp_witness:
  "newDate utcHost (rawTimestamp (JObj [(''Timestamp'', JStr ''2024-01-01T05:00:00Z'')])) =
     Date 1704085200000 \<and>
   map_sum id timestamp (normalizeMessage utcHost (JObj [(''Timestamp'', JStr ''2024-01-01T05:00:00Z'')])) =
     Inr (Some (Date 1704067200000)) \<and>
   isoParse ''2024-01-01T00:00:00Z'' = Some 1704067200000 \<and>
   newDate utcHost (rawTimestamp (JObj [(''Timestamp'', JStr ''yesterday'')])) = InvalidDate \<and>
   map_sum id timestamp (normalizeMessage utcHost (JObj [(''Timestamp'', JStr ''yesterday'')])) =
     Inr None"
proof -
  let ?msg = "JObj [(''Timestamp'', JStr ''2024-01-01T05:00:00Z'')]"
  let ?m = "\<lparr> channelId = Null, guildId = Null, channelName = Null, guildName = Null,
              avatarUrl = Undefined, msgId = Undefined,
              timestamp = Some (Date 1704067200000), contents = [], attachments = [] \<rparr>"
  let ?bad = "JObj [(''Timestamp'', JStr ''yesterday'')]"
  let ?b = "\<lparr> channelId = Null, guildId = Null, channelName = Null, guildName = Null,
              avatarUrl = Undefined, msgId = Undefined,
              timestamp = None, contents = [], attachments = [] \<rparr>"
  have a: "normalizeMessage utcHost ?msg = Inr ?m" by code_simp
  have b: "truthy (rawTimestamp ?msg)" by code_simp
  have c: "newDate utcHost (rawTimestamp ?msg) = Date 1704085200000" by code_simp
  have d: "isoParse ''2024-01-01T00:00:00Z'' = Some 1704067200000" by code_simp
  have e: "normalizeMessage utcHost ?bad = Inr ?b" by code_simp
  have f: "newDate utcHost (rawTimestamp ?bad) = InvalidDate" by code_simp
  from normalizeMessage_timestamp[OF a, of 1704085200000] b c
  have "timestamp ?m = Some (Date 1704067200000)" by simp
  moreover from normalizeMessage_timestamp[OF e, of 0] f
  have "timestamp ?b = None" by simp
  ultimately show ?thesis using a c d e f by simp
qed

text \<open>
  C2 as stated fails: the raw timestamp 0 gives a valid date, the epoch, and is stored
  as null, since 0 is falsy; and the earliest time value gives a valid date that is
  stored as an invalid date, since five hours before it there is no time value.
\<close>

theorem normalizeMessage_timestamp_counterexample:
  "newDate utcHost (rawTimestamp (JObj [(''Timestamp'', JNum 0)])) = Date 0 \<and>
   map_sum id timestamp (normalizeMessage utcHost (JObj [(''Timestamp'', JNum 0)])) = Inr None \<and>
   newDate utcHost (rawTimestamp (JObj [(''Timestamp'', JNum (- 8640000000000000))])) =
     Date (- 8640000000000000) \<and>
   map_sum id timestamp
     (normalizeMessage utcHost (JObj [(''Timestamp'', JNum (- 8640000000000000))])) =
     Inr (Some InvalidDate)"
  by code_simp

section \<open>Identifier-shaped names\<close>

lemma reIdShape_iff:
  "reIdShape s \<longleftrightarrow>
     (\<exists>p ds. s = p @ ds \<and> (p = [] \<or> p = ''c'' \<or> p = ''~'') \<and> 15 \<le> length ds \<and> list_all isDigit ds)"
proof
  assume r: "reIdShape s"
  show "\<exists>p ds. s = p @ ds \<and> (p = [] \<or> p = ''c'' \<or> p = ''~'') \<and> 15 \<le> length ds \<and> list_all isDigit ds"
  proof (cases s)
    case Nil
    with r show ?thesis by (simp add: reIdShape_def)
  next
    case (Cons c cs)
    show ?thesis
    proof (cases "c = CHR ''c'' \<or> c = CHR ''~''")
      case True
      with Cons r have "15 \<le> length cs \<and> list_all isDigit cs"
        by (auto simp: reIdShape_def)
      with True Cons show ?thesis
        by (intro exI[of _ "[c]"] exI[of _ cs]) auto
    next
      case False
      with Cons r have "15 \<le> length s \<and> list_all isDigit s"
        by (auto simp: reIdShape_def)
      then show ?thesis
        by (intro exI[of _ "[]"] exI[of _ s]) auto
    qed
  qed
next
  assume "\<exists>p ds. s = p @ ds \<and> (p = [] \<or> p = ''c'' \<or> p = ''~'') \<and> 15 \<le> length ds \<and> list_all isDigit ds"
  then obtain p ds where s: "s = p @ ds" and p: "p = [] \<or> p = ''c'' \<or> p = ''~''"
    and l: "15 \<le> length ds" and d: "list_all isDigit ds" by blast
  have nd: "\<not> isDigit (CHR ''c'')" "\<not> isDigit (CHR ''~'')" by (simp_all add: isDigit_def code_def)
  from p show "reIdShape s"
  proof (elim disjE)
    assume "p = []"
    with s l d nd show ?thesis by (cases ds) (auto simp: reIdShape_def Let_def)
  next
    assume "p = ''c''" with s l d show ?thesis by (simp add: reIdShape_def)
  next
    assume "p = ''~''" with s l d show ?thesis by (simp add: reIdShape_def)
  qed
qed

text \<open>
  C3, as the code has it: the predicate holds of a string exactly when the string with
  its leading and trailing white space trimmed is an optional c or tilde followed by
  at least 15 digits and nothing else, or is longer than 16 characters and all digits.
\<close>

theorem looksLikeId_iff:
  "looksLikeId (JStr s) \<longleftrightarrow>
     (\<exists>p ds. trim s = p @ ds \<and> (p = [] \<or> p = ''c'' \<or> p = ''~'') \<and> 15 \<le> length ds \<and>
             list_all isDigit ds) \<or>
     (16 < length (trim s) \<and> list_all isDigit (trim s))"
  by (auto simp: looksLikeId_def Let_def reIdShape_iff reAllDigits_def)

text \<open>The three examples of the specification.\<close>

theorem looksLikeId_iff_witness:
  "looksLikeId (JStr ''123456789012345'') \<and> looksLikeId (JStr ''c123456789012345'') \<and>
   \<not> looksLikeId (JStr ''general'')"
proof -
  have t1: "trim ''123456789012345'' = [] @ ''123456789012345''" by code_simp
  have t2: "trim ''c123456789012345'' = ''c'' @ ''123456789012345''" by code_simp
  have t3: "trim ''general'' = ''general''" by code_simp
  have d: "list_all isDigit ''123456789012345''" by code_simp
  have n: "\<not> isDigit (CHR ''g'')" by code_simp
  have "looksLikeId (JStr ''123456789012345'')"
    unfolding looksLikeId_iff using t1 d
    by (intro disjI1 exI[of _ "[]"] exI[of _ "''123456789012345''"]) simp
  moreover have "looksLikeId (JStr ''c123456789012345'')"
    unfolding looksLikeId_iff using t2 d
    by (intro disjI1 exI[of _ "''c''"] exI[of _ "''123456789012345''"]) simp
  moreover have "\<not> looksLikeId (JStr ''general'')"
    unfolding looksLikeId_iff t3 using n by (auto simp: append_eq_Cons_conv)
  ultimately show ?thesis by simp
qed

text \<open>
  C3 as stated fails on a string with white space around an identifier: the predicate
  holds of it, and the string itself matches neither pattern.
\<close>

theorem looksLikeId_iff_counterexample:
  "looksLikeId (JStr '' 123456789012345'') \<and> \<not> reIdShape '' 123456789012345'' \<and>
   \<not> (16 < length '' 123456789012345'' \<and> reAllDigits '' 123456789012345'')"
  by code_simp

section \<open>The parts of a summary\<close>

lemma buildSummary_Inr:
  assumes "buildSummary h r = Inr s"
  obtains a where
    "summaryLoop h (channelIdToName r) initAcc
       (List.map_filter (\<lambda>m. map_option (\<lambda>t. (t, m)) (timeValue m)) (messages r)) = Inr a"
    and "totalWords (stats s) = totalWords a"
    and "totalMessages (stats s) = length (filter hasValidTimestamp (messages r))"
    and "avgWordsPerMessage (stats s) =
           (if length (filter hasValidTimestamp (messages r)) \<noteq> 0
            then Math_round (of_nat (totalWords a) /
                             of_nat (length (filter hasValidTimestamp (messages r))))
            else 0)"
    and "byChannel (stats s) = sortBy (byCountDesc count) (map finishRow (byChannel a))"
    and "topEmojis (stats s) =
           take 24 (sortBy (byCountDesc snd) (filter (\<lambda>e. isEmojiKey (fst e)) (wordCounts a)))"
  using assms unfolding buildSummary_def Let_def
  by (auto split: sum.splits)

lemma set_insertBy: "set (insertBy le x xs) = insert x (set xs)"
  by (induction xs) auto

lemma set_sortBy: "set (sortBy le xs) = set xs"
  unfolding sortBy_def by (induction xs) (auto simp: set_insertBy)

text \<open>
  The one exception \<^verbatim>\<open>buildSummary\<close> can raise: a truthy channel ID that is not a
  string and that the index does not name has no \<^verbatim>\<open>replace\<close> method.
\<close>

lemma buildSummary_throws:
  "buildSummary utcHost (mkResult [mkMessage ''hello'' (Some (Date 0)) (JNum 5) (JStr ''7'') Null] []) =
     Inl TypeError"
  by code_simp

section \<open>What the summary counts\<close>

text \<open>
  C9: the average is the rounded quotient of the two totals when there are messages, and
  0 when there are none; with no messages the summary is returned, no fault is raised.
\<close>

theorem avgWordsPerMessage_rounded:
  "(buildSummary h r = Inr s \<longrightarrow>
      avgWordsPerMessage (stats s) =
        (if totalMessages (stats s) = 0 then 0
         else round (of_nat (totalWords (stats s)) / of_nat (totalMessages (stats s)) :: rat))) \<and>
   (filter hasValidTimestamp (messages r) = [] \<longrightarrow>
      (\<exists>s'. buildSummary h r = Inr s' \<and> totalMessages (stats s') = 0 \<and>
            avgWordsPerMessage (stats s') = 0))"
proof (intro conjI impI)
  assume "buildSummary h r = Inr s"
  then show "avgWordsPerMessage (stats s) =
        (if totalMessages (stats s) = 0 then 0
         else round (of_nat (totalWords (stats s)) / of_nat (totalMessages (stats s)) :: rat))"
    by (elim buildSummary_Inr) (simp add: Math_round_def round_def)
next
  assume e: "filter hasValidTimestamp (messages r) = []"
  have "List.map_filter (\<lambda>m. map_option (\<lambda>t. (t, m)) (timeValue m)) (messages r) = []"
    using e by (auto simp: List.map_filter_def filter_empty_conv hasValidTimestamp_def)
  then show "\<exists>s'. buildSummary h r = Inr s' \<and> totalMessages (stats s') = 0 \<and>
            avgWordsPerMessage (stats s') = 0"
    using e by (simp add: buildSummary_def Let_def)
qed

text \<open>
  Two messages with three words between them average to 2 (1.5 rounds upwards); an
  empty corpus averages to 0.
\<close>

theorem avgWordsPerMessage_rounded_witness:
  "map_sum id (\<lambda>s. (totalWords (stats s), totalMessages (stats s), avgWordsPerMessage (stats s)))
     (buildSummary utcHost
        (mkResult [mkMessage ''red green blue'' (Some (Date 0)) (JStr ''1'') Null Null,
                   mkMessage [] (Some (Date 1000)) (JStr ''1'') Null Null] [])) = Inr (3, 2, 2) \<and>
   map_sum id (\<lambda>s. (totalWords (stats s), totalMessages (stats s), avgWordsPerMessage (stats s)))
     (buildSummary utcHost (mkResult [] [])) = Inr (0, 0, 0)"
proof -
  let ?r = "mkResult [mkMessage ''red green blue'' (Some (Date 0)) (JStr ''1'') Null Null,
                      mkMessage [] (Some (Date 1000)) (JStr ''1'') Null Null] []"
  have "map_sum id (\<lambda>s. (totalWords (stats s), totalMessages (stats s)))
          (buildSummary utcHost ?r) = Inr (3, 2)"
    by code_simp
  then obtain s where s: "buildSummary utcHost ?r = Inr s" "totalWords (stats s) = 3"
      "totalMessages (stats s) = 2"
    by (cases "buildSummary utcHost ?r") auto
  have "round (3 / 2 :: rat) = 2" by (simp add: round_def)
  with avgWordsPerMessage_rounded[of utcHost ?r s] s
  have a: "avgWordsPerMessage (stats s) = 2" by simp
  have "filter hasValidTimestamp (messages (mkResult [] [])) = []" by (simp add: mkResult_def)
  with avgWordsPerMessage_rounded[of utcHost "mkResult [] []" s]
  obtain s' where s': "buildSummary utcHost (mkResult [] []) = Inr s'"
      "totalMessages (stats s') = 0" "avgWordsPerMessage (stats s') = 0"
    by blast
  have "totalWords (stats s') = 0"
    using s'(1) by (elim buildSummary_Inr) (simp add: mkResult_def List.map_filter_def initAcc_def)
  with s s' a show ?thesis by simp
qed

text \<open>
  C1, as the code has it. A message whose raw timestamp is falsy or gives an invalid
  date is normalized to timestamp null, and \<^verbatim>\<open>buildSummary\<close> drops it before it counts
  anything: with or without the message the summary is the same, so the message adds to
  none of totalMessages, totalWords, byDay, byHour and byDayOfWeek. Here \<open>m'\<close> is the
  normalized message with the channel fields that the pipeline has filled in.
\<close>

theorem unparseable_timestamp_not_counted:
  assumes "normalizeMessage h raw = Inr m"
    and "\<not> truthy (rawTimestamp raw) \<or> newDate h (rawTimestamp raw) = InvalidDate"
    and "timestamp m' = timestamp m"
  shows "timestamp m = None \<and>
         buildSummary h (r\<lparr> messages := xs @ m' # ys \<rparr>) =
         buildSummary h (r\<lparr> messages := xs @ ys \<rparr>)"
proof -
  have n: "timestamp m = None"
    using normalizeMessage_ts[OF assms(1)] assms(2) by auto
  with assms(3) have tv: "timeValue m' = None" by (simp add: timeValue_def)
  then have "\<not> hasValidTimestamp m'" by (simp add: hasValidTimestamp_def)
  with tv have "buildSummary h (r\<lparr> messages := xs @ m' # ys \<rparr>) =
                buildSummary h (r\<lparr> messages := xs @ ys \<rparr>)"
    by (simp add: buildSummary_def List.map_filter_def Let_def cong: sum.case_cong)
  with n show ?thesis by simp
qed

text \<open>
  A message with the timestamp "yesterday" next to a dated one: the summary counts one
  message and its two words, as it does without the undated message.
\<close>

theorem unparseable_timestamp_not_counted_witness:
  "map_sum id timestamp (normalizeMessage utcHost (rawMessage (JStr ''yesterday'') ''hello world'')) =
     Inr None \<and>
   map_sum id (\<lambda>s. (totalMessages (stats s), totalWords (stats s), byDay (stats s)))
     (buildSummary utcHost
        (mkResult [mkMessage ''good morning'' (Some (Date 0)) (JStr ''1'') Null Null,
                   mkMessage ''hello world'' None (JStr ''1'') Null Null] [])) =
     Inr (1, 2, [(''1970-01-01'', 1)])"
proof -
  let ?raw = "rawMessage (JStr ''yesterday'') ''hello world''"
  let ?m = "\<lparr> channelId = Null, guildId = Null, channelName = Null, guildName = Null,
              avatarUrl = Undefined, msgId = Undefined, timestamp = None,
              contents = ''hello world'', attachments = [] \<rparr>"
  let ?m' = "mkMessage ''hello world'' None (JStr ''1'') Null Null"
  let ?g = "mkMessage ''good morning'' (Some (Date 0)) (JStr ''1'') Null Null"
  have a: "normalizeMessage utcHost ?raw = Inr ?m" by code_simp
  have b: "\<not> truthy (rawTimestamp ?raw) \<or> newDate utcHost (rawTimestamp ?raw) = InvalidDate"
    by code_simp
  have c: "timestamp ?m' = timestamp ?m" by (simp add: mkMessage_def)
  have d: "map_sum id (\<lambda>s. (totalMessages (stats s), totalWords (stats s), byDay (stats s)))
             (buildSummary utcHost (mkResult [?g] [])) = Inr (1, 2, [(''1970-01-01'', 1)])"
    by code_simp
  have e: "(mkResult [] [])\<lparr> messages := [?g] @ ?m' # [] \<rparr> = mkResult [?g, ?m'] []"
    "(mkResult [] [])\<lparr> messages := [?g] @ [] \<rparr> = mkResult [?g] []"
    by (simp_all add: mkResult_def)
  from unparseable_timestamp_not_counted[OF a b c, where r = "mkResult [] []" and xs = "[?g]" and ys = "[]"]
  have "timestamp ?m = None \<and>
        buildSummary utcHost (mkResult [?g, ?m'] []) = buildSummary utcHost (mkResult [?g] [])"
    unfolding e .
  with a d show ?thesis by simp
qed

text \<open>
  C1 as stated fails: an archive whose one transcript holds one message, with the
  timestamp "yesterday" and two words, gives a corpus of one message and a summary with
  totalMessages 0 and totalWords 0.
\<close>

theorem unparseable_timestamp_not_counted_counterexample:
  "length (messages (fst (zipResult utcHost
     [(''messages/c1/messages.json'',
       Some (JArr [rawMessage (JStr ''yesterday'') ''hello world'']))]))) = 1 \<and>
   map_sum id (\<lambda>s. (totalMessages (stats s), totalWords (stats s)))
     (snd (parseZip utcHost
        [(''messages/c1/messages.json'',
          Some (JArr [rawMessage (JStr ''yesterday'') ''hello world'']))])) = Inr (0, 0) \<and>
   length (tokenize ''hello world'') = 2"
  by code_simp

section \<open>The passes of the parse pipelines\<close>

text \<open>The loops as folds: the progress reports do not influence the result.\<close>

lemma zipMessageLoop_fold:
  "fst (zipMessageLoop h files n i r cs) = foldl (\<lambda>r c. fst (zipReadMessages h files r c)) r cs"
proof (induction cs arbitrary: i r)
  case Nil
  then show ?case by simp
next
  case (Cons c cs)
  obtain r1 reached where s: "zipReadMessages h files r c = (r1, reached)"
    by (cases "zipReadMessages h files r c")
  obtain r2 reps where l: "zipMessageLoop h files n (i + 1) r1 cs = (r2, reps)"
    by (cases "zipMessageLoop h files n (i + 1) r1 cs")
  from Cons.IH[of "i + 1" r1] l have "r2 = foldl (\<lambda>r c. fst (zipReadMessages h files r c)) r1 cs" by simp
  with s l show ?case by simp
qed

lemma listMetaLoop_fold:
  "fst (listMetaLoop n i r cs) = foldl (\<lambda>r c. fst (listReadMeta r c)) r cs"
proof (induction cs arbitrary: i r)
  case Nil
  then show ?case by simp
next
  case (Cons c cs)
  obtain r1 reached where s: "listReadMeta r c = (r1, reached)"
    by (cases "listReadMeta r c")
  obtain r2 reps where l: "listMetaLoop n (i + 1) r1 cs = (r2, reps)"
    by (cases "listMetaLoop n (i + 1) r1 cs")
  from Cons.IH[of "i + 1" r1] l have "r2 = foldl (\<lambda>r c. fst (listReadMeta r c)) r1 cs" by simp
  with s l show ?case by simp
qed

lemma listMessageLoop_fold:
  "fst (listMessageLoop h n i r cs) = foldl (\<lambda>r c. fst (listReadMessages h r c)) r cs"
proof (induction cs arbitrary: i r)
  case Nil
  then show ?case by simp
next
  case (Cons c cs)
  obtain r1 reached where s: "listReadMessages h r c = (r1, reached)"
    by (cases "listReadMessages h r c")
  obtain r2 reps where l: "listMessageLoop h n (i + 1) r1 cs = (r2, reps)"
    by (cases "listMessageLoop h n (i + 1) r1 cs")
  from Cons.IH[of "i + 1" r1] l have "r2 = foldl (\<lambda>r c. fst (listReadMessages h r c)) r1 cs" by simp
  with s l show ?case by simp
qed

lemma zipResult_parseOf:
  "fst (zipResult h files) = zipParseOf h files (zipMetaFiles files) (zipMessageFiles files)"
proof -
  let ?r1 = "foldl (zipReadMeta files) zipInit (zipMetaFiles files)"
  obtain r2 reps where
    l: "zipMessageLoop h files (length (zipMessageFiles files)) 0 ?r1 (zipMessageFiles files) = (r2, reps)"
    by (cases "zipMessageLoop h files (length (zipMessageFiles files)) 0 ?r1 (zipMessageFiles files)")
  from zipMessageLoop_fold[of h files "length (zipMessageFiles files)" 0 ?r1 "zipMessageFiles files"] l
  have "r2 = foldl (\<lambda>r c. fst (zipReadMessages h files r c)) ?r1 (zipMessageFiles files)" by simp
  with l show ?thesis by (simp add: zipResult_def zipParseOf_def Let_def)
qed

lemma listResult_parseOf:
  "fst (listResult h files) = listParseOf h files (listMetaFiles files) (listMessageCandidates files)"
proof -
  obtain r1 metaReps where
    m: "listMetaLoop (length (listMetaFiles files)) 0 listInit (listMetaFiles files) = (r1, metaReps)"
    by (cases "listMetaLoop (length (listMetaFiles files)) 0 listInit (listMetaFiles files)")
  obtain r2 reps where
    l: "listMessageLoop h (length (listMessageCandidates files)) 0 r1 (listMessageCandidates files) = (r2, reps)"
    by (cases "listMessageLoop h (length (listMessageCandidates files)) 0 r1 (listMessageCandidates files)")
  from listMetaLoop_fold[of "length (listMetaFiles files)" 0 listInit "listMetaFiles files"] m
  have r1: "r1 = foldl (\<lambda>r c. fst (listReadMeta r c)) listInit (listMetaFiles files)" by simp
  from listMessageLoop_fold[of h "length (listMessageCandidates files)" 0 r1 "listMessageCandidates files"] l
  have "r2 = foldl (\<lambda>r c. fst (listReadMessages h r c)) r1 (listMessageCandidates files)" by simp
  with m l r1 show ?thesis by (simp add: listResult_def listParseOf_def Let_def)
qed

text \<open>The message loops, the account and the index leave the messages' names alone.\<close>

lemma pushMessages_names:
  "channelIdToName (fst (pushMessages h meta cp r ms)) = channelIdToName r"
  by (induction ms arbitrary: r) (auto split: sum.splits)

lemma readMessages_names:
  "channelIdToName (fst (readMessages h meta cp r content)) = channelIdToName r"
  by (auto simp: readMessages_def pushMessages_names split: option.splits jsval.splits)

lemma zipReadMessages_names:
  "channelIdToName (fst (zipReadMessages h files r c)) = channelIdToName r"
  by (auto simp: zipReadMessages_def readMessages_names split: option.splits)

lemma listReadMessages_names:
  "channelIdToName (fst (listReadMessages h r c)) = channelIdToName r"
  by (simp add: listReadMessages_def readMessages_names)

lemma foldl_names:
  assumes "\<And>r c. channelIdToName (f r c) = channelIdToName r"
  shows "channelIdToName (foldl f r cs) = channelIdToName r"
  by (induction cs arbitrary: r) (simp_all add: assms)

lemma zipAccount_names: "channelIdToName (zipAccount files r fs) = channelIdToName r"
  by (induction fs) (auto split: option.splits)

lemma listAccount_names: "channelIdToName (listAccount files r) = channelIdToName r"
  by (auto simp: listAccount_def split: option.splits)

text \<open>The index loader writes over the names it finds: its result is the names it
  was given, overridden by what the index file alone gives.\<close>

lemma setIndexNames_add: "setIndexNames names cs = names ++ setIndexNames Map.empty cs"
proof (induction cs arbitrary: names)
  case Nil
  then show ?case by simp
next
  case (Cons c cs)
  show ?case
  proof (cases "nullish c")
    case True
    then show ?thesis by simp
  next
    case False
    let ?cid = "nc (nc (getProp c ''id'') (getProp c ''channel_id'')) (getProp c ''channelId'')"
    let ?name = "nc (nc (getProp c ''name'') (getProp c ''channel_name'')) (getProp c ''channelName'')"
    show ?thesis
    proof (cases "truthy ?cid \<and> \<not> nullish ?name")
      case True
      have "setIndexNames names (c # cs) =
              setIndexNames (names(ToString ?cid \<mapsto> JStr (ToString ?name))) cs"
        using False True by (simp add: Let_def)
      also have "\<dots> = names(ToString ?cid \<mapsto> JStr (ToString ?name)) ++ setIndexNames Map.empty cs"
        by (rule Cons.IH)
      also have "\<dots> = names ++ (Map.empty(ToString ?cid \<mapsto> JStr (ToString ?name)) ++ setIndexNames Map.empty cs)"
        by (simp add: map_add_upd_left fun_eq_iff map_add_def split: option.splits)
      also have "Map.empty(ToString ?cid \<mapsto> JStr (ToString ?name)) ++ setIndexNames Map.empty cs =
                 setIndexNames (Map.empty(ToString ?cid \<mapsto> JStr (ToString ?name))) cs"
        by (rule Cons.IH[symmetric])
      also have "\<dots> = setIndexNames Map.empty (c # cs)"
        using False True by (simp add: Let_def)
      finally show ?thesis .
    next
      case F: False
      have "setIndexNames names (c # cs) = setIndexNames names cs"
        using False F by (auto simp: Let_def)
      moreover have "setIndexNames Map.empty (c # cs) = setIndexNames Map.empty cs"
        using False F by (auto simp: Let_def)
      ultimately show ?thesis using Cons.IH[of names] by simp
    qed
  qed
qed

lemma setIndexEntries_add: "setIndexEntries names es = names ++ setIndexEntries Map.empty es"
proof (induction es arbitrary: names)
  case Nil
  then show ?case by simp
next
  case (Cons e es)
  obtain k v where e: "e = (k, v)" by (cases e)
  let ?w = "case v of JStr s \<Rightarrow> v
            | _ \<Rightarrow> nc (nc (nc (optProp v ''name'') (optProp v ''channel_name''))
                         (optProp v ''channelName'')) (JStr k)"
  have "setIndexEntries names (e # es) = setIndexEntries (names(k \<mapsto> ?w)) es"
    using e by simp
  also have "\<dots> = names(k \<mapsto> ?w) ++ setIndexEntries Map.empty es" by (rule Cons.IH)
  also have "\<dots> = names ++ (Map.empty(k \<mapsto> ?w) ++ setIndexEntries Map.empty es)"
    by (simp add: fun_eq_iff map_add_def split: option.splits)
  also have "Map.empty(k \<mapsto> ?w) ++ setIndexEntries Map.empty es =
             setIndexEntries (Map.empty(k \<mapsto> ?w)) es"
    by (rule Cons.IH[symmetric])
  also have "\<dots> = setIndexEntries Map.empty (e # es)" using e by simp
  finally show ?case .
qed

lemma applyIndex_add: "applyIndex content names = names ++ indexNames content"
  unfolding indexNames_def applyIndex_def
  using setIndexNames_add[of names] setIndexEntries_add[of names]
  by (auto split: option.splits jsval.splits)

lemma indexNames_None: "indexNames None = Map.empty"
  by (simp add: indexNames_def applyIndex_def)

lemma zipIndex_names:
  "channelIdToName (zipIndex files r) = channelIdToName r ++ indexNames (zipIndexContent files)"
  by (simp add: zipIndex_def zipIndexContent_def applyIndex_add indexNames_None
           split: option.splits)

lemma listIndex_names:
  "channelIdToName (listIndex files r) = channelIdToName r ++ indexNames (listIndexContent files)"
  by (simp add: listIndex_def listIndexContent_def applyIndex_add indexNames_None
           split: option.splits)

text \<open>
  The names that \<^verbatim>\<open>buildSummary\<close> looks channels up in: those that the metadata pass has
  recorded, overridden by those of the global index file.
\<close>

lemma zipResult_names:
  "channelIdToName (fst (zipResult h files)) =
     zipMetaNames files ++ indexNames (zipIndexContent files)"
  unfolding zipResult_parseOf zipParseOf_def zipIndex_names zipAccount_names zipMetaNames_def
  by (simp add: foldl_names[where f = "\<lambda>r c. fst (zipReadMessages h files r c)"] zipReadMessages_names)

lemma listResult_names:
  "channelIdToName (fst (listResult h files)) =
     listMetaNames files ++ indexNames (listIndexContent files)"
  unfolding listResult_parseOf listParseOf_def listIndex_names listAccount_names listMetaNames_def
    listMetaLoop_fold
  by (simp add: foldl_names[where f = "\<lambda>r c. fst (listReadMessages h r c)"] listReadMessages_names)


section \<open>Names of channel rows\<close>

lemma finishRow_chan:
  "channelId (finishRow ch) = channelId ch" "guildId (finishRow ch) = guildId ch"
  "channelName (finishRow ch) = channelName ch"
  by (simp_all add: finishRow_def Let_def)

lemma addToRow_chan:
  "channelId (addToRow m ch) = channelId ch" "guildId (addToRow m ch) = guildId ch"
  "channelName (addToRow m ch) = channelName ch"
  by (simp_all add: addToRow_def)

lemma upsertChannel_rows:
  "row \<in> set (upsertChannel key d m chs) \<Longrightarrow>
     (\<exists>ch\<in>set chs. sameChannel row ch) \<or>
     (channelId row = key \<and> guildId row = guildId m \<and> channelName row = d)"
  by (induction chs) (auto simp: sameChannel_def addToRow_chan newChannelRow_def split: if_splits)

lemma step_rows:
  assumes "step h names a tm = Inr a'" "row \<in> set (byChannel a')"
  shows "(\<exists>ch\<in>set (byChannel a). sameChannel row ch) \<or>
         (\<exists>idx. idFromIndex names (channelKey (snd tm)) = Inr idx \<and>
                channelId row = channelKey (snd tm) \<and> guildId row = guildId (snd tm) \<and>
                channelName row = displayName idx (snd tm))"
proof -
  from assms(1) obtain idx where i: "idFromIndex names (channelKey (snd tm)) = Inr idx"
    and a': "byChannel a' = upsertChannel (channelKey (snd tm)) (displayName idx (snd tm)) (snd tm) (byChannel a)"
    by (auto simp: step_def Let_def channelKey_def split: sum.splits)
  from assms(2) a' upsertChannel_rows show ?thesis using i by fastforce
qed

lemma loop_rows:
  "summaryLoop h names a tms = Inr a' \<Longrightarrow> row \<in> set (byChannel a') \<Longrightarrow>
     (\<exists>ch\<in>set (byChannel a). sameChannel row ch) \<or>
     (\<exists>tm\<in>set tms. \<exists>idx. idFromIndex names (channelKey (snd tm)) = Inr idx \<and>
                channelId row = channelKey (snd tm) \<and> guildId row = guildId (snd tm) \<and>
                channelName row = displayName idx (snd tm))"
proof (induction tms arbitrary: a)
  case Nil
  then show ?case by (auto simp: sameChannel_def)
next
  case (Cons tm tms)
  from Cons.prems(1) obtain a1 where s: "step h names a tm = Inr a1"
    and l: "summaryLoop h names a1 tms = Inr a'"
    by (auto split: sum.splits)
  from Cons.IH[OF l Cons.prems(2)] show ?case
  proof
    assume "\<exists>ch\<in>set (byChannel a1). sameChannel row ch"
    then obtain ch where ch: "ch \<in> set (byChannel a1)" "sameChannel row ch" by blast
    from step_rows[OF s ch(1)] ch(2) show ?thesis
      by (auto simp: sameChannel_def)
  next
    assume "\<exists>tm\<in>set tms. \<exists>idx. idFromIndex names (channelKey (snd tm)) = Inr idx \<and>
                channelId row = channelKey (snd tm) \<and> guildId row = guildId (snd tm) \<and>
                channelName row = displayName idx (snd tm)"
    then show ?thesis by auto
  qed
qed

lemma summary_rows:
  assumes "buildSummary h r = Inr s" "row \<in> set (byChannel (stats s))"
  shows "\<exists>m\<in>set (messages r). \<exists>idx. hasValidTimestamp m \<and>
           idFromIndex (channelIdToName r) (channelKey m) = Inr idx \<and>
           channelId row = channelKey m \<and> guildId row = guildId m \<and>
           channelName row = displayName idx m"
proof -
  from assms(1) obtain a where
    l: "summaryLoop h (channelIdToName r) initAcc
          (List.map_filter (\<lambda>m. map_option (\<lambda>t. (t, m)) (timeValue m)) (messages r)) = Inr a"
    and b: "byChannel (stats s) = sortBy (byCountDesc count) (map finishRow (byChannel a))"
    by (elim buildSummary_Inr)
  from assms(2) b obtain ch where ch: "ch \<in> set (byChannel a)" "row = finishRow ch"
    by (auto simp: set_sortBy)
  from loop_rows[OF l ch(1)] obtain tm idx where
    tm: "tm \<in> set (List.map_filter (\<lambda>m. map_option (\<lambda>t. (t, m)) (timeValue m)) (messages r))"
    and i: "idFromIndex (channelIdToName r) (channelKey (snd tm)) = Inr idx"
    and c: "channelId ch = channelKey (snd tm)" "guildId ch = guildId (snd tm)"
           "channelName ch = displayName idx (snd tm)"
    by (auto simp: initAcc_def)
  from tm have "snd tm \<in> set (messages r) \<and> hasValidTimestamp (snd tm)"
    by (auto simp: List.map_filter_def hasValidTimestamp_def)
  with i c ch(2) show ?thesis
    by (auto simp: finishRow_chan)
qed

lemma looksLikeId_truthy: "looksLikeId v \<Longrightarrow> truthy v"
  by (cases v) (auto simp: looksLikeId_def Let_def reIdShape_def reAllDigits_def trim_def split: list.splits)

text \<open>
  The lookup of \<^verbatim>\<open>buildSummary\<close> in the names of a parse result, which are the names
  of the metadata pass overridden by those of the index: it gives the index's name for
  a channel that the index names under its ID, or under its stripped ID when the
  metadata pass has no name under the ID itself.
\<close>

lemma idFromIndex_over_meta:
  assumes "idFromIndex (meta ++ idx) key = Inr v"
    and "\<not> nullish (indexName idx key)"
    and "nullish (lookupName idx (ToString key)) \<longrightarrow> meta (ToString key) = None"
  shows "v = indexName idx key"
proof (cases "nullish (lookupName idx (ToString key))")
  case False
  then obtain w where w: "idx (ToString key) = Some w" "\<not> nullish w"
    by (auto simp: lookupName_def nullish_def split: option.splits)
  then have "lookupName (meta ++ idx) (ToString key) = w" by (simp add: lookupName_def)
  moreover from w have "indexName idx key = w" by (simp add: indexName_def lookupName_def)
  ultimately show ?thesis using assms(1) w(2) by (simp add: idFromIndex_def)
next
  case True
  with assms(3) have m: "meta (ToString key) = None" by simp
  from True m have l: "nullish (lookupName (meta ++ idx) (ToString key))"
    by (auto simp: lookupName_def map_add_def nullish_def split: option.splits)
  from True assms(2) obtain k where k: "key = JStr k"
    and s: "\<not> nullish (lookupName idx (stripNonDigitPrefix k))"
    by (cases key) (auto simp: indexName_def nullish_def)
  from s obtain w where w: "idx (stripNonDigitPrefix k) = Some w"
    by (auto simp: lookupName_def nullish_def split: option.splits)
  have "k \<noteq> []"
  proof
    assume "k = []"
    with s True k show False by (simp add: stripNonDigitPrefix_def)
  qed
  then have t: "truthy key" using k by simp
  from w have "lookupName (meta ++ idx) (stripNonDigitPrefix k) = w" by (simp add: lookupName_def)
  moreover from True k w have "indexName idx key = w" by (simp add: indexName_def lookupName_def)
  ultimately show ?thesis using assms(1) l t k by (simp add: idFromIndex_def)
qed

lemma row_index_name:
  assumes "buildSummary h r = Inr s" and "row \<in> set (byChannel (stats s))"
    and "channelIdToName r = meta ++ idx"
    and "\<not> nullish (indexName idx (channelId row))"
    and "nullish (lookupName idx (ToString (channelId row))) \<longrightarrow> meta (ToString (channelId row)) = None"
  shows "channelName row =
           (if \<not> truthy (guildId row) \<and> looksLikeId (indexName idx (channelId row))
            then Null else indexName idx (channelId row))"
proof -
  from summary_rows[OF assms(1,2)] obtain m v where
    i: "idFromIndex (channelIdToName r) (channelKey m) = Inr v"
    and c: "channelId row = channelKey m" "guildId row = guildId m"
           "channelName row = displayName v m"
    by blast
  from i assms(3) c(1) have "idFromIndex (meta ++ idx) (channelId row) = Inr v" by simp
  from idFromIndex_over_meta[OF this assms(4,5)]
  have v: "v = indexName idx (channelId row)" .
  with assms(4) have "nc v (channelName m) = v" by (simp add: nc_def)
  with c v show ?thesis
    using looksLikeId_truthy[of v] by (auto simp: displayName_def Let_def)
qed

text \<open>
  C4, as the code has it, for both pipelines; \<open>idx\<close> is what the global index file
  gives and \<open>meta\<close> what the metadata pass has recorded for direct-message channels.
  When the index names the channel of a row under the row's channel ID, or names it
  under that ID without its non-digit prefix while the metadata pass has recorded no
  name under the ID itself, the row's name is the index's name, whatever default name
  the messages carry; except that a row without a guild ID whose index name is
  identifier-shaped gets the name null.
\<close>

theorem index_name_preferred:
  assumes "(run = parseZip h files \<and> idx = indexNames (zipIndexContent files) \<and>
            meta = zipMetaNames files) \<or>
           (run = parseFileList h files \<and> idx = indexNames (listIndexContent files) \<and>
            meta = listMetaNames files)"
    and "snd run = Inr s" and "row \<in> set (byChannel (stats s))"
    and "\<not> nullish (indexName idx (channelId row))"
    and "nullish (lookupName idx (ToString (channelId row))) \<longrightarrow>
           meta (ToString (channelId row)) = None"
  shows "channelName row =
           (if \<not> truthy (guildId row) \<and> looksLikeId (indexName idx (channelId row))
            then Null else indexName idx (channelId row))"
  using assms(1)
proof
  assume z: "run = parseZip h files \<and> idx = indexNames (zipIndexContent files) \<and>
             meta = zipMetaNames files"
  with assms(2) have "buildSummary h (fst (zipResult h files)) = Inr s"
    by (simp add: parseZip_def)
  from row_index_name[where meta = meta and idx = idx, OF this assms(3) _ assms(4,5)] z
  show ?thesis by (simp add: zipResult_names)
next
  assume l: "run = parseFileList h files \<and> idx = indexNames (listIndexContent files) \<and>
             meta = listMetaNames files"
  with assms(2) have "buildSummary h (fst (listResult h files)) = Inr s"
    by (simp add: parseFileList_def)
  from row_index_name[where meta = meta and idx = idx, OF this assms(3) _ assms(4,5)] l
  show ?thesis by (simp add: listResult_names)
qed

text \<open>
  The example of the specification, as an archive read by both pipelines: a guild
  channel 42 whose metadata names it "42", a directory c43 without metadata, and an
  index that maps "42" to "team-chat" and "43" to "other-chat". The default name of the
  messages of the first is the literal ID "42"; its row is named "team-chat". The row
  of the second, found in the index without its prefix, is named "other-chat".
\<close>

theorem index_name_preferred_witness:
  "map channelName (messages (fst (zipResult utcHost indexedArchive))) = [JStr ''42'', Null] \<and>
   map_sum id (\<lambda>s. map (\<lambda>row. (channelId row, channelName row)) (byChannel (stats s)))
     (snd (parseZip utcHost indexedArchive)) =
     Inr [(JStr ''42'', JStr ''team-chat''), (JStr ''c43'', JStr ''other-chat'')] \<and>
   map_sum id (\<lambda>s. map (\<lambda>row. (channelId row, channelName row)) (byChannel (stats s)))
     (snd (parseFileList utcHost indexedArchive)) =
     Inr [(JStr ''42'', JStr ''team-chat''), (JStr ''c43'', JStr ''other-chat'')]"
proof -
  let ?zi = "indexNames (zipIndexContent indexedArchive)"
  let ?li = "indexNames (listIndexContent indexedArchive)"
  have names: "indexName ?zi (JStr ''42'') = JStr ''team-chat''"
      "indexName ?zi (JStr ''c43'') = JStr ''other-chat''"
      "indexName ?li (JStr ''42'') = JStr ''team-chat''"
      "indexName ?li (JStr ''c43'') = JStr ''other-chat''"
    by code_simp+
  have metas: "zipMetaNames indexedArchive ''c43'' = None" "listMetaNames indexedArchive ''c43'' = None"
      "lookupName ?zi ''42'' = JStr ''team-chat''" "lookupName ?li ''42'' = JStr ''team-chat''"
    by code_simp+
  have l: "\<not> looksLikeId (JStr ''team-chat'')" "\<not> looksLikeId (JStr ''other-chat'')" by code_simp+
  have d: "map channelName (messages (fst (zipResult utcHost indexedArchive))) = [JStr ''42'', Null]"
    by code_simp
  have "map_sum id (\<lambda>s. map channelId (byChannel (stats s))) (snd (parseZip utcHost indexedArchive)) =
          Inr [JStr ''42'', JStr ''c43'']"
    by code_simp
  then obtain s a b where s: "snd (parseZip utcHost indexedArchive) = Inr s"
      "byChannel (stats s) = [a, b]" "channelId a = JStr ''42''" "channelId b = JStr ''c43''"
    by (cases "snd (parseZip utcHost indexedArchive)") auto
  note z = index_name_preferred[where run = "parseZip utcHost indexedArchive" and h = utcHost
      and files = indexedArchive and idx = ?zi and meta = "zipMetaNames indexedArchive" and s = s, OF _ s(1)]
  from z[of a] s names metas l have za: "channelName a = JStr ''team-chat''"
    by (simp add: nullish_def)
  from z[of b] s names metas l have zb: "channelName b = JStr ''other-chat''"
    by (simp add: nullish_def)
  have "map_sum id (\<lambda>s. map channelId (byChannel (stats s))) (snd (parseFileList utcHost indexedArchive)) =
          Inr [JStr ''42'', JStr ''c43'']"
    by code_simp
  then obtain t c e where t: "snd (parseFileList utcHost indexedArchive) = Inr t"
      "byChannel (stats t) = [c, e]" "channelId c = JStr ''42''" "channelId e = JStr ''c43''"
    by (cases "snd (parseFileList utcHost indexedArchive)") auto
  note y = index_name_preferred[where run = "parseFileList utcHost indexedArchive" and h = utcHost
      and files = indexedArchive and idx = ?li and meta = "listMetaNames indexedArchive" and s = t, OF _ t(1)]
  from y[of c] t names metas l have lc: "channelName c = JStr ''team-chat''"
    by (simp add: nullish_def)
  from y[of e] t names metas l have le: "channelName e = JStr ''other-chat''"
    by (simp add: nullish_def)
  from d s za zb t lc le show ?thesis by simp
qed

text \<open>
  C4 as stated fails, in two ways. In the first archive the metadata of the
  direct-message channel c42 names it "Bob", and the index maps the stripped ID "42" to
  "team-chat": the row is named "Bob", the name recorded under the ID c42 by the
  metadata pass. In the second the index maps the ID "42" of a directory without
  metadata to an identifier-shaped name: the row has no guild ID and is named null.
\<close>

theorem index_name_preferred_counterexample:
  "indexName (indexNames (zipIndexContent bobArchive)) (JStr ''c42'') = JStr ''team-chat'' \<and>
   map_sum id (\<lambda>s. map (\<lambda>row. (channelId row, guildId row, channelName row)) (byChannel (stats s)))
     (snd (parseZip utcHost bobArchive)) = Inr [(JStr ''c42'', Null, JStr ''Bob'')] \<and>
   indexName (indexNames (zipIndexContent idNamedArchive)) (JStr ''42'') = JStr ''123456789012345678'' \<and>
   map_sum id (\<lambda>s. map (\<lambda>row. (channelId row, guildId row, channelName row)) (byChannel (stats s)))
     (snd (parseZip utcHost idNamedArchive)) = Inr [(JStr ''42'', Undefined, Null)]"
  by code_simp



section \<open>Emoji counts\<close>

subsection \<open>The emoji pattern on tokens\<close>

lemma code_lowerChar:
  "code (lowerChar c) =
     (if (65 \<le> code c \<and> code c \<le> 90) \<or> (192 \<le> code c \<and> code c \<le> 222 \<and> code c \<noteq> 215)
      then code c + 32 else code c)"
  by (simp add: lowerChar_def code_def)

lemma colon_code: "c = CHR '':'' \<longleftrightarrow> code c = 58"
proof -
  have "code (CHR '':'') = 58" by (simp add: code_def)
  then show ?thesis by (metis code_def of_char_eq_iff)
qed

lemma lowerChar_colon: "lowerChar c = CHR '':'' \<longleftrightarrow> c = CHR '':''"
  unfolding colon_code code_lowerChar by auto

lemma lowerChar_colon_self: "lowerChar (CHR '':'') = CHR '':''"
  using lowerChar_colon[of "CHR '':''"] by simp

lemma lowerChar_word: "isWordTilde (lowerChar c) \<longleftrightarrow> isWordTilde c"
  unfolding isWordTilde_def code_lowerChar by auto

lemma lowerChar_space: "isSpace (lowerChar c) \<longleftrightarrow> isSpace c"
  unfolding isSpace_def code_lowerChar by auto

lemma space_not_word: "isSpace c \<Longrightarrow> \<not> isWordTilde c \<and> c \<noteq> CHR '':''"
  unfolding colon_code isSpace_def isWordTilde_def by auto

lemma space_is_space: "isSpace (CHR '' '')"
  by (simp add: isSpace_def code_def)

lemma emojiScan_lower:
  "emojiScan (map_option toLowerCase st) (toLowerCase s) = map toLowerCase (emojiScan st s)"
proof (induction s arbitrary: st)
  case Nil
  then show ?case by (simp add: toLowerCase_def)
next
  case (Cons c cs)
  show ?case
  proof (cases st)
    case None
    with Cons[of None] Cons[of "Some []"] show ?thesis
      by (simp add: toLowerCase_def lowerChar_colon)
  next
    case (Some acc)
    with Cons[of None] Cons[of "Some []"] Cons[of "Some (c # acc)"] show ?thesis
      by (simp add: toLowerCase_def lowerChar_colon lowerChar_colon_self lowerChar_word rev_map)
  qed
qed

lemma matchEmojis_lower: "matchEmojis (toLowerCase s) = map toLowerCase (matchEmojis s)"
  using emojiScan_lower[of None s] by (simp add: matchEmojis_def)

lemma emojiScan_space: "isSpace c \<Longrightarrow> emojiScan st (c # cs) = emojiScan None cs"
  using space_not_word[of c] by (cases st) auto

lemma emojiScan_collapse:
  "(b \<longrightarrow> st = None) \<Longrightarrow> emojiScan st (collapseSpaces b s) = emojiScan st s"
proof (induction s arbitrary: b st)
  case Nil
  then show ?case by simp
next
  case (Cons c cs)
  show ?case
  proof (cases "isSpace c")
    case True
    with Cons.prems Cons.IH[of True None] show ?thesis
      by (auto simp: emojiScan_space space_is_space)
  next
    case False
    show ?thesis
    proof (cases st)
      case None
      with False Cons.IH[of False None] Cons.IH[of False "Some []"] show ?thesis by simp
    next
      case (Some acc)
      with False Cons.IH[of False None] Cons.IH[of False "Some []"]
        Cons.IH[of False "Some (c # acc)"] show ?thesis by simp
    qed
  qed
qed

lemma emojiScan_space_append:
  "isSpace c \<Longrightarrow> emojiScan st (xs @ c # ys) = emojiScan st xs @ emojiScan None ys"
proof (induction xs arbitrary: st)
  case Nil
  then show ?case by (simp add: emojiScan_space)
next
  case (Cons x xs)
  then show ?case by (cases st) auto
qed

lemma matchEmojis_split:
  "(b \<longrightarrow> cur = []) \<Longrightarrow>
   concat (map matchEmojis (splitSpaces cur b s)) = matchEmojis (rev cur @ s)"
proof (induction s arbitrary: cur b)
  case Nil
  then show ?case by simp
next
  case (Cons c cs)
  show ?case
  proof (cases "isSpace c")
    case True
    show ?thesis
    proof (cases b)
      case True
      with \<open>isSpace c\<close> Cons.prems Cons.IH[of True "[]"] space_not_word[of c] show ?thesis
        by (simp add: matchEmojis_def)
    next
      case False
      with \<open>isSpace c\<close> Cons.IH[of True "[]"] show ?thesis
        by (simp add: matchEmojis_def emojiScan_space_append)
    qed
  next
    case False
    with Cons.IH[of False "c # cur"] show ?thesis by simp
  qed
qed

lemma matchEmojis_short: "length t \<le> 1 \<Longrightarrow> matchEmojis t = []"
  by (cases t) (auto simp: matchEmojis_def)

lemma concat_matchEmojis_long:
  "concat (map matchEmojis (filter (\<lambda>w. length w > 1) ts)) = concat (map matchEmojis ts)"
  by (induction ts) (auto simp: matchEmojis_short)

lemma matchEmojis_tokens:
  "map toLowerCase (matchEmojis text) = concat (map matchEmojis (tokenize text))"
proof -
  have "map toLowerCase (matchEmojis text) = matchEmojis (toLowerCase text)"
    by (simp add: matchEmojis_lower)
  also have "\<dots> = matchEmojis (collapseSpaces False (toLowerCase text))"
    using emojiScan_collapse[of False None] by (simp add: matchEmojis_def)
  also have "\<dots> = concat (map matchEmojis (splitSpaces [] False (collapseSpaces False (toLowerCase text))))"
    using matchEmojis_split[of False "[]"] by simp
  finally show ?thesis
    unfolding tokenize_def by (simp only: concat_matchEmojis_long)
qed

lemma emojiScan_body:
  "list_all isWordTilde body \<Longrightarrow> rev acc @ body \<noteq> [] \<Longrightarrow>
   emojiScan (Some acc) (body @ '':'') = [CHR '':'' # rev acc @ body @ '':'']"
proof (induction body arbitrary: acc)
  case Nil
  then show ?case using colon_code[of "CHR '':''"] by (auto simp: isWordTilde_def)
next
  case (Cons c body)
  from Cons.prems Cons.IH[of "c # acc"] show ?case by simp
qed

lemma isEmojiKey_shape:
  "isEmojiKey k \<longleftrightarrow> (\<exists>body. k = CHR '':'' # body @ '':'' \<and> body \<noteq> [] \<and> list_all isWordTilde body)"
proof
  assume "isEmojiKey k"
  then obtain cs where k: "k = CHR '':'' # cs" and cs: "cs \<noteq> []" "last cs = CHR '':''"
    "butlast cs \<noteq> []" "list_all isWordTilde (butlast cs)"
    by (auto simp: isEmojiKey_def split: list.splits)
  from cs(1,2) have "cs = butlast cs @ '':''" by (metis append_butlast_last_id)
  with k cs show "\<exists>body. k = CHR '':'' # body @ '':'' \<and> body \<noteq> [] \<and> list_all isWordTilde body"
    by metis
next
  assume "\<exists>body. k = CHR '':'' # body @ '':'' \<and> body \<noteq> [] \<and> list_all isWordTilde body"
  then show "isEmojiKey k" by (auto simp: isEmojiKey_def)
qed

lemma matchEmojis_key: "isEmojiKey k \<Longrightarrow> matchEmojis k = [k]"
  using emojiScan_body[of _ "[]"] by (auto simp: isEmojiKey_shape matchEmojis_def)

lemma stopwords_no_colon: "list_all (\<lambda>w. hd w \<noteq> CHR '':'') STOPWORDS"
  by (simp add: STOPWORDS_def)

lemma emojiKey_not_stopword: "isEmojiKey k \<Longrightarrow> k \<notin> set STOPWORDS"
  using stopwords_no_colon by (auto simp: list_all_iff isEmojiKey_shape)

subsection \<open>The frequency map\<close>

lemma map_of_mapSet: "map_of (mapSet k v m) = (map_of m)(k \<mapsto> v)"
  by (induction m) (auto simp: fun_eq_iff)

lemma keys_mapSet: "fst ` set (mapSet k v m) = insert k (fst ` set m)"
  by (induction m) auto

lemma distinct_mapSet: "distinct (map fst m) \<Longrightarrow> distinct (map fst (mapSet k v m))"
  by (induction m) (auto simp: keys_mapSet)

lemma countOf_bump: "countOf (bump k m) k' = countOf m k' + (if k' = k then 1 else 0)"
  by (simp add: countOf_def bump_def map_of_mapSet split: option.splits)

lemma distinct_bump: "distinct (map fst m) \<Longrightarrow> distinct (map fst (bump k m))"
  by (simp add: bump_def distinct_mapSet)

lemma countOf_countWords:
  "countOf (countWords ws wc) k = countOf wc k + count_list (filter (\<lambda>w. w \<notin> set STOPWORDS) ws) k"
  unfolding countWords_def
  by (induction ws arbitrary: wc) (auto simp: countOf_bump)

lemma distinct_countWords: "distinct (map fst wc) \<Longrightarrow> distinct (map fst (countWords ws wc))"
  unfolding countWords_def
  by (induction ws arbitrary: wc) (auto simp: distinct_bump)

lemma countOf_foldl_bump:
  "countOf (foldl (\<lambda>wc e. bump (f e) wc) wc es) k = countOf wc k + count_list (map f es) k"
  by (induction es arbitrary: wc) (auto simp: countOf_bump)

lemma distinct_foldl_bump:
  "distinct (map fst wc) \<Longrightarrow> distinct (map fst (foldl (\<lambda>wc e. bump (f e) wc) wc es))"
  by (induction es arbitrary: wc) (auto simp: distinct_bump)

lemma countOf_countEmojis:
  "countOf (countEmojis text wc) k = countOf wc k + count_list (map toLowerCase (matchEmojis text)) k"
  by (simp add: countEmojis_def countOf_foldl_bump)

lemma distinct_countEmojis: "distinct (map fst wc) \<Longrightarrow> distinct (map fst (countEmojis text wc))"
  by (simp add: countEmojis_def distinct_foldl_bump)

lemma count_list_concat:
  "count_list (concat xss) k = sum_list (map (\<lambda>xs. count_list xs k) xss)"
  by (induction xss) auto

lemma count_list_filter_other: "P k \<Longrightarrow> count_list (filter P xs) k = count_list xs k"
  by (induction xs) auto

lemma twice_standalone:
  "isEmojiKey k \<Longrightarrow>
   count_list ts k + sum_list (map (\<lambda>t. count_list (matchEmojis t) k) ts) =
   2 * count_list ts k + sum_list (map (\<lambda>t. count_list (matchEmojis t) k) (filter (\<lambda>t. t \<noteq> k) ts))"
  by (induction ts) (auto simp: matchEmojis_key)

text \<open>What one message adds to the count of an emoji key.\<close>

lemma emoji_increment:
  assumes "isEmojiKey k"
  shows "countOf (countEmojis text (countWords (tokenize text) wc)) k =
         countOf wc k + 2 * standalone k text + embedded k text"
proof -
  have "count_list (filter (\<lambda>w. w \<notin> set STOPWORDS) (tokenize text)) k = count_list (tokenize text) k"
    using emojiKey_not_stopword[OF assms] by (simp add: count_list_filter_other)
  moreover have "count_list (map toLowerCase (matchEmojis text)) k =
      sum_list (map (\<lambda>t. count_list (matchEmojis t) k) (tokenize text))"
    by (simp add: matchEmojis_tokens count_list_concat comp_def)
  ultimately show ?thesis
    using twice_standalone[OF assms, of "tokenize text"]
    by (simp add: countOf_countEmojis countOf_countWords standalone_def embedded_def)
qed

lemma step_wordCounts:
  assumes "step h names a tm = Inr a'"
  shows "wordCounts a' = countEmojis (contents (snd tm)) (countWords (tokenize (contents (snd tm))) (wordCounts a))"
  using assms by (auto simp: step_def Let_def split: sum.splits)

lemma loop_wordCounts:
  "summaryLoop h names a tms = Inr a' \<Longrightarrow> isEmojiKey k \<Longrightarrow> distinct (map fst (wordCounts a)) \<Longrightarrow>
   distinct (map fst (wordCounts a')) \<and>
   countOf (wordCounts a') k =
     countOf (wordCounts a) k +
     (\<Sum>tm\<leftarrow>tms. 2 * standalone k (contents (snd tm)) + embedded k (contents (snd tm)))"
proof (induction tms arbitrary: a)
  case Nil
  then show ?case by simp
next
  case (Cons tm tms)
  from Cons.prems(1) obtain a1 where s: "step h names a tm = Inr a1"
    and l: "summaryLoop h names a1 tms = Inr a'"
    by (auto split: sum.splits)
  have w: "wordCounts a1 = countEmojis (contents (snd tm)) (countWords (tokenize (contents (snd tm))) (wordCounts a))"
    by (rule step_wordCounts[OF s])
  have d: "distinct (map fst (wordCounts a1))"
    using Cons.prems(3) by (simp add: w distinct_countEmojis distinct_countWords)
  have c: "countOf (wordCounts a1) k =
      countOf (wordCounts a) k + 2 * standalone k (contents (snd tm)) + embedded k (contents (snd tm))"
    by (simp add: w emoji_increment[OF Cons.prems(2)])
  from Cons.IH[OF l Cons.prems(2) d] c show ?case by simp
qed

lemma timed_messages:
  "map snd (List.map_filter (\<lambda>m. map_option (\<lambda>t. (t, m)) (timeValue m)) ms) = filter hasValidTimestamp ms"
  by (induction ms) (auto simp: List.map_filter_def hasValidTimestamp_def)

lemma sum_list_timed:
  "(\<Sum>tm\<leftarrow>List.map_filter (\<lambda>m. map_option (\<lambda>t. (t, m)) (timeValue m)) ms. f (snd tm)) =
   (\<Sum>m\<leftarrow>filter hasValidTimestamp ms. f m)"
proof -
  have "(\<Sum>tm\<leftarrow>List.map_filter (\<lambda>m. map_option (\<lambda>t. (t, m)) (timeValue m)) ms. f (snd tm)) =
        sum_list (map f (map snd (List.map_filter (\<lambda>m. map_option (\<lambda>t. (t, m)) (timeValue m)) ms)))"
    by (simp add: comp_def)
  then show ?thesis by (simp only: timed_messages)
qed

text \<open>
  C10, as the code has it. An entry of topEmojis is an emoji key with its count, and the
  count is the sum, over the messages with a valid timestamp, of twice the number of the
  key's standalone occurrences (each counted once by the tokenizing pass and once by
  the emoji scan) and the number of its occurrences inside longer tokens (which only
  the emoji scan counts).
\<close>

theorem emoji_count_twice_standalone:
  assumes "buildSummary h r = Inr s" and "(k, n) \<in> set (topEmojis (stats s))"
  shows "isEmojiKey k \<and>
         n = (\<Sum>m\<leftarrow>filter hasValidTimestamp (messages r).
                2 * standalone k (contents m) + embedded k (contents m))"
proof -
  from assms(1) obtain a where
    l: "summaryLoop h (channelIdToName r) initAcc
          (List.map_filter (\<lambda>m. map_option (\<lambda>t. (t, m)) (timeValue m)) (messages r)) = Inr a"
    and t: "topEmojis (stats s) =
           take 24 (sortBy (byCountDesc snd) (filter (\<lambda>e. isEmojiKey (fst e)) (wordCounts a)))"
    by (elim buildSummary_Inr)
  from assms(2) t have "(k, n) \<in> set (sortBy (byCountDesc snd) (filter (\<lambda>e. isEmojiKey (fst e)) (wordCounts a)))"
    by (auto dest: in_set_takeD)
  then have mem: "(k, n) \<in> set (wordCounts a)" and key: "isEmojiKey k"
    by (auto simp: set_sortBy)
  have init: "distinct (map fst (wordCounts initAcc))" "countOf (wordCounts initAcc) k = 0"
    by (simp_all add: initAcc_def countOf_def)
  from loop_wordCounts[OF l key init(1)] init(2)
  have d: "distinct (map fst (wordCounts a))"
    and c: "countOf (wordCounts a) k =
      (\<Sum>tm\<leftarrow>List.map_filter (\<lambda>m. map_option (\<lambda>t. (t, m)) (timeValue m)) (messages r).
          2 * standalone k (contents (snd tm)) + embedded k (contents (snd tm)))"
    by simp_all
  from d mem have "map_of (wordCounts a) k = Some n" by simp
  then have "countOf (wordCounts a) k = n" by (simp add: countOf_def)
  with c key show ?thesis
    using sum_list_timed[of "\<lambda>m. 2 * standalone k (contents m) + embedded k (contents m)" "messages r"]
    by simp
qed

text \<open>
  One message with the emoji twice standalone, in either case, and once inside a longer
  token: the count reported is 5.
\<close>

theorem emoji_count_twice_standalone_witness:
  "map_sum id (\<lambda>s. topEmojis (stats s))
     (buildSummary utcHost
        (mkResult [mkMessage '':smile: hello :SMILE: x:smile:'' (Some (Date 0)) (JStr ''1'') Null Null] [])) =
     Inr [('':smile:'', 5)] \<and>
   standalone '':smile:'' '':smile: hello :SMILE: x:smile:'' = 2 \<and>
   embedded '':smile:'' '':smile: hello :SMILE: x:smile:'' = 1"
proof -
  let ?text = "'':smile: hello :SMILE: x:smile:''"
  let ?r = "mkResult [mkMessage ?text (Some (Date 0)) (JStr ''1'') Null Null] []"
  have "map_sum id (\<lambda>s. map fst (topEmojis (stats s))) (buildSummary utcHost ?r) = Inr ['':smile:'']"
    by code_simp
  then obtain s n where s: "buildSummary utcHost ?r = Inr s" "topEmojis (stats s) = [('':smile:'', n)]"
    by (cases "buildSummary utcHost ?r") auto
  have a: "standalone '':smile:'' ?text = 2" by code_simp
  have b: "embedded '':smile:'' ?text = 1" by code_simp
  have "filter hasValidTimestamp (messages ?r) = [mkMessage ?text (Some (Date 0)) (JStr ''1'') Null Null]"
    by (simp add: mkResult_def mkMessage_def hasValidTimestamp_def timeValue_def)
  moreover have "contents (mkMessage ?text (Some (Date 0)) (JStr ''1'') Null Null) = ?text"
    by (simp add: mkMessage_def)
  ultimately have "n = 5"
    using emoji_count_twice_standalone[OF s(1), of "'':smile:''" n] s(2) a b by simp
  with s a b show ?thesis by simp
qed

text \<open>
  C10 as stated fails when the emoji also occurs inside a longer token: one standalone
  occurrence and one embedded occurrence are reported as 3, not as 2.
\<close>

theorem emoji_count_twice_standalone_counterexample:
  "map_sum id (\<lambda>s. topEmojis (stats s))
     (buildSummary utcHost
        (mkResult [mkMessage '':a: b:a:'' (Some (Date 0)) (JStr ''1'') Null Null] [])) =
     Inr [('':a:'', 3)] \<and>
   standalone '':a:'' '':a: b:a:'' = 1"
  by code_simp

section \<open>Progress reports\<close>

lemma div_step: "(c * (i + 1)) div n \<le> (c * (i + 2)) div (n::nat)"
  by (rule div_le_mono) simp

lemma div_bound: "j + 1 \<le> n \<Longrightarrow> (c * (j + 1)) div n \<le> (c::nat)"
proof -
  assume a: "j + 1 \<le> n"
  then have "c * (j + 1) \<le> c * n" by (rule mult_le_mono2)
  then have "(c * (j + 1)) div n \<le> (c * n) div n" by (rule div_le_mono)
  also have "\<dots> \<le> c" using a by simp
  finally show ?thesis .
qed

lemma zipMessageLoop_reports:
  "i + length cs \<le> n \<Longrightarrow>
   sorted (snd (zipMessageLoop h files n i r cs)) \<and>
   (\<forall>p\<in>set (snd (zipMessageLoop h files n i r cs)).
      10 + of_nat ((70 * (i + 1)) div n) \<le> p \<and> p \<le> 80)"
proof (induction cs arbitrary: i r)
  case Nil
  then show ?case by simp
next
  case (Cons c cs)
  obtain r1 reached where s: "zipReadMessages h files r c = (r1, reached)"
    by (cases "zipReadMessages h files r c")
  obtain r2 reps where l: "zipMessageLoop h files n (i + 1) r1 cs = (r2, reps)"
    by (cases "zipMessageLoop h files n (i + 1) r1 cs")
  from Cons.prems have le: "i + 1 + length cs \<le> n" by simp
  from Cons.IH[OF le, of r1] l
  have ih: "sorted reps" "\<forall>p\<in>set reps. 10 + of_nat ((70 * (i + 2)) div n) \<le> p \<and> p \<le> 80"
    by (simp_all add: numeral_2_eq_2)
  have m: "(of_nat ((70 * (i + 1)) div n) :: rat) \<le> of_nat ((70 * (i + 2)) div n)"
    using div_step[of 70 i n] by (simp only: of_nat_le_iff)
  from le have "i + 1 \<le> n" by simp
  then have b: "(of_nat ((70 * (i + 1)) div n) :: rat) \<le> 70"
    using div_bound[of i n 70] by (metis of_nat_le_iff of_nat_numeral)
  have low: "\<forall>p\<in>set reps. 10 + of_nat ((70 * (i + 1)) div n) \<le> p"
    using ih(2) m by fastforce
  show ?case
    using s l ih low b by (auto simp: sorted_append)
qed

lemma zip_reports: "fst (parseZip h files) = [0, 5, 10] @ snd (zipMessageLoop h files (length (zipMessageFiles files)) 0 (foldl (zipReadMeta files) zipInit (zipMetaFiles files)) (zipMessageFiles files)) @ [80, 95]"
  by (simp add: parseZip_def zipResult_def Let_def split: prod.splits)

lemma parseZip_progress: "sorted (fst (parseZip h files)) \<and> last (fst (parseZip h files)) = 95"
proof -
  let ?reps = "snd (zipMessageLoop h files (length (zipMessageFiles files)) 0 (foldl (zipReadMeta files) zipInit (zipMetaFiles files)) (zipMessageFiles files))"
  have "sorted ?reps \<and> (\<forall>p\<in>set ?reps. 10 + of_nat ((70 * (0 + 1)) div length (zipMessageFiles files)) \<le> p \<and> p \<le> 80)"
    by (rule zipMessageLoop_reports) simp
  then have s: "sorted ?reps" and b: "\<forall>p\<in>set ?reps. 10 \<le> p \<and> p \<le> 80"
    by (auto intro: order_trans[rotated])
  show ?thesis
    unfolding zip_reports using s b by (auto simp: sorted_append)
qed

lemma min5_step: "n > 0 \<Longrightarrow> min 5 (of_nat (5 * (mi + 1)) / of_nat n) \<le> min (5::rat) (of_nat (5 * (mi + 2)) / of_nat n)"
  by (auto simp: min_def divide_le_cancel field_simps)

lemma listMetaLoop_reports:
  "sorted (snd (listMetaLoop n mi r cs)) \<and>
   (\<forall>p\<in>set (snd (listMetaLoop n mi r cs)).
      n > 0 \<and> min 5 (of_nat (5 * (mi + 1)) / of_nat n) \<le> p \<and> p \<le> 5)"
proof (induction cs arbitrary: mi r)
  case Nil
  then show ?case by simp
next
  case (Cons c cs)
  obtain r1 reached where s: "listReadMeta r c = (r1, reached)"
    by (cases "listReadMeta r c")
  obtain r2 reps where l: "listMetaLoop n (mi + 1) r1 cs = (r2, reps)"
    by (cases "listMetaLoop n (mi + 1) r1 cs")
  from Cons.IH[of "mi + 1" r1] l
  have ih: "sorted reps" "\<forall>p\<in>set reps. n > 0 \<and> min 5 (of_nat (5 * (mi + 2)) / of_nat n) \<le> p \<and> p \<le> 5"
    by (simp_all add: numeral_2_eq_2)
  have low: "\<forall>p\<in>set reps. min 5 (of_nat (5 * (mi + 1)) / of_nat n) \<le> p"
  proof
    fix p assume p: "p \<in> set reps"
    with ih(2) have "n > 0" "min 5 (of_nat (5 * (mi + 2)) / of_nat n) \<le> p" by auto
    with min5_step[of n mi] show "min 5 (of_nat (5 * (mi + 1)) / of_nat n) \<le> p" by linarith
  qed
  show ?case
    using s l ih low by (auto simp: sorted_append)
qed

lemma listMessageLoop_reports:
  "mi + length cs \<le> n \<Longrightarrow>
   sorted (snd (listMessageLoop h n mi r cs)) \<and>
   (\<forall>p\<in>set (snd (listMessageLoop h n mi r cs)).
      5 + of_nat ((80 * (mi + 1)) div n) \<le> p \<and> p \<le> 85)"
proof (induction cs arbitrary: mi r)
  case Nil
  then show ?case by simp
next
  case (Cons c cs)
  obtain r1 reached where s: "listReadMessages h r c = (r1, reached)"
    by (cases "listReadMessages h r c")
  obtain r2 reps where l: "listMessageLoop h n (mi + 1) r1 cs = (r2, reps)"
    by (cases "listMessageLoop h n (mi + 1) r1 cs")
  from Cons.prems have le: "mi + 1 + length cs \<le> n" by simp
  from Cons.IH[OF le, of r1] l
  have ih: "sorted reps" "\<forall>p\<in>set reps. 5 + of_nat ((80 * (mi + 2)) div n) \<le> p \<and> p \<le> 85"
    by (simp_all add: numeral_2_eq_2)
  have m: "(of_nat ((80 * (mi + 1)) div n) :: rat) \<le> of_nat ((80 * (mi + 2)) div n)"
    using div_step[of 80 mi n] by (simp only: of_nat_le_iff)
  from le have "mi + 1 \<le> n" by simp
  then have b: "(of_nat ((80 * (mi + 1)) div n) :: rat) \<le> 80"
    using div_bound[of mi n 80] by (metis of_nat_le_iff of_nat_numeral)
  have low: "\<forall>p\<in>set reps. 5 + of_nat ((80 * (mi + 1)) div n) \<le> p"
    using ih(2) m by fastforce
  show ?case
    using s l ih low b by (auto simp: sorted_append)
qed

lemma parseFileList_progress:
  "sorted (fst (parseFileList h files)) \<and> last (fst (parseFileList h files)) = 85"
proof -
  obtain r1 metaReps where m: "listMetaLoop (length (listMetaFiles files)) 0 listInit (listMetaFiles files) = (r1, metaReps)"
    by (cases "listMetaLoop (length (listMetaFiles files)) 0 listInit (listMetaFiles files)")
  obtain r2 reps where l: "listMessageLoop h (length (listMessageCandidates files)) 0 r1 (listMessageCandidates files) = (r2, reps)"
    by (cases "listMessageLoop h (length (listMessageCandidates files)) 0 r1 (listMessageCandidates files)")
  have e: "fst (parseFileList h files) = [0] @ metaReps @ [5] @ reps @ [85]"
    using m l by (simp add: parseFileList_def listResult_def Let_def)
  from listMetaLoop_reports[of "length (listMetaFiles files)" 0 listInit "listMetaFiles files"] m
  have ms: "sorted metaReps" and mb: "\<forall>p\<in>set metaReps. 0 \<le> p \<and> p \<le> 5"
    by (auto simp: min_def split: if_splits intro: order_trans[rotated])
  from listMessageLoop_reports[of 0 "listMessageCandidates files" "length (listMessageCandidates files)" h r1] l
  have rs: "sorted reps" and rb: "\<forall>p\<in>set reps. 5 \<le> p \<and> p \<le> 85"
    by (auto intro: order_trans[rotated])
  show ?thesis
    unfolding e using ms mb rs rb by (fastforce simp: sorted_append)
qed

text \<open>
  C6, as the code has it. The percentages that a run passes to the callback never
  decrease; the last one is 95 for an archive and 85 for a file list. (No run passes
  100: the load screen sets it once the parse has returned.)
\<close>

theorem progress_nondecreasing:
  "sorted (fst (parseZip h files)) \<and> last (fst (parseZip h files)) = 95 \<and>
   list_all (\<lambda>p. p < 100) (fst (parseZip h files)) \<and>
   sorted (fst (parseFileList h files)) \<and> last (fst (parseFileList h files)) = 85 \<and>
   list_all (\<lambda>p. p < 100) (fst (parseFileList h files))"
proof -
  have below: "list_all (\<lambda>p. p < 100) xs" if "sorted xs" and "last xs < 100" for xs :: "rat list"
  proof -
    have "p < 100" if "p \<in> set xs" for p
    proof -
      from that obtain ys zs where xs: "xs = ys @ p # zs" by (auto simp: in_set_conv_decomp)
      with \<open>sorted xs\<close> have "p \<le> last (p # zs)"
        by (cases zs) (auto simp: sorted_append)
      with xs \<open>last xs < 100\<close> show ?thesis by simp
    qed
    then show ?thesis by (simp add: list_all_iff)
  qed
  from parseZip_progress[of h files] parseFileList_progress[of h files] show ?thesis
    by (auto intro: below)
qed

text \<open>
  The reports of the two pipelines on the archive whose first transcript cannot be
  parsed: the loops report after the second transcript only.
\<close>

lemma brokenArchive_reports:
  "fst (parseZip utcHost brokenArchive) = [0, 5, 10, 80, 80, 95] \<and>
   fst (parseFileList utcHost brokenArchive) = [0, 5, 85]"
  by code_simp

theorem progress_nondecreasing_witness:
  "fst (parseZip utcHost brokenArchive) = [0, 5, 10, 80, 80, 95] \<and>
   fst (parseFileList utcHost brokenArchive) = [0, 5, 85] \<and>
   sorted (fst (parseZip utcHost brokenArchive)) \<and>
   sorted (fst (parseFileList utcHost brokenArchive))"
  using progress_nondecreasing[of utcHost brokenArchive] brokenArchive_reports by simp

text \<open>C6 as stated fails: the last report of a run is 95 or 85, not 100.\<close>

theorem progress_nondecreasing_counterexample:
  "last (fst (parseZip utcHost brokenArchive)) = 95 \<and>
   last (fst (parseFileList utcHost brokenArchive)) = 85"
  using brokenArchive_reports by simp

section \<open>Files that fail\<close>



subsection \<open>A failing candidate changes nothing\<close>








subsection \<open>When the summary is built\<close>


























section \<open>The second scan for transcripts\<close>

lemma map_filter_mem: "g x = Some y \<Longrightarrow> x \<in> set xs \<Longrightarrow> y \<in> set (List.map_filter g xs)"
  by (force simp: List.map_filter_def)

lemma listFallback_mem:
  assumes "f \<in> set files"
    and "toLowerCase (fileName (segments (cleanPath (fst f)))) = ''messages.json''"
    and "length (segments (cleanPath (fst f))) \<ge> 2"
  shows "(cleanPath (fst f), join ''/'' (butlast (segments (cleanPath (fst f)))), snd f) \<in> set (listFallback files)"
proof -
  have "listFallbackCandidate f =
      Some (cleanPath (fst f), join ''/'' (butlast (segments (cleanPath (fst f)))), snd f)"
    using assms(2,3) by (simp add: listFallbackCandidate_def Let_def)
  with assms(1) show ?thesis
    unfolding listFallback_def by (rule map_filter_mem[rotated])
qed

text \<open>
  What \<^verbatim>\<open>parseFileList\<close> does when its first scan finds no candidate: the candidates
  are those of the second scan, and every file named \<^verbatim>\<open>messages.json\<close> inside some
  directory is one of them, with that directory as its channel path.
\<close>

lemma listFallback_scan:
  assumes "listPrimary files = []" and "f \<in> set files"
    and "fileName (segments (cleanPath (fst f))) = ''messages.json''"
    and "length (segments (cleanPath (fst f))) \<ge> 2"
  shows "listMessageCandidates files = listFallback files \<and>
         (cleanPath (fst f), join ''/'' (butlast (segments (cleanPath (fst f)))), snd f)
           \<in> set (listMessageCandidates files)"
proof -
  have "toLowerCase ''messages.json'' = ''messages.json''" by code_simp
  with assms(3) have "toLowerCase (fileName (segments (cleanPath (fst f)))) = ''messages.json''" by simp
  from listFallback_mem[OF assms(2) this assms(4)] assms(1) show ?thesis
    by (simp add: listMessageCandidates_def)
qed

text \<open>
  C8 holds of \<^verbatim>\<open>parseFileList\<close> and fails on \<^verbatim>\<open>parseZip\<close>, which has no second scan.
  For an archive that keeps its one transcript outside the messages directory,
  \<^verbatim>\<open>parseZip\<close> finds no message file and counts no message; on the same files
  \<^verbatim>\<open>parseFileList\<close> finds none in its first scan, falls back, and counts the message.
\<close>

theorem parseZip_no_fallback:
  "zipMessageFiles looseArchive = [] \<and>
   map_sum id (\<lambda>s. totalMessages (stats s)) (snd (parseZip utcHost looseArchive)) = Inr 0 \<and>
   listPrimary looseArchive = [] \<and>
   map (\<lambda>c. (fst c, fst (snd c))) (listMessageCandidates looseArchive) =
     [(''export/c1/messages.json'', ''export/c1'')] \<and>
   map_sum id (\<lambda>s. totalMessages (stats s)) (snd (parseFileList utcHost looseArchive)) = Inr 1"
  by code_simp

end
